theory Spec2Isabelle
  imports Complex_Main
begin

section \<open>The inline suggestion manager of the content script\<close>

text \<open>
  This theory embeds the class \<open>InlineSuggestionManager\<close> of
  \<^verbatim>\<open>browser-extension/src/content/content.ts\<close>: the extraction of the current
  word, the matching against the cached responses, the ghost overlay and its two
  positioning strategies, and the accept and dismiss paths of the keydown handler.

  Strings are lists of 8-bit code units read as Latin-1; a pixel length is a real number;
  \<open>Date.now()\<close> is an integer number of milliseconds. The editable region is the list of
  its text nodes in document order, which is what the \<open>TreeWalker\<close> of the source
  enumerates and what \<open>textContent\<close> concatenates; the selection of the window lies
  inside the tracked element. A tracked input is of type text, as the selectors of the
  content script require; an input or textarea has a caret offset, and a string assigned
  to its value is stored the way the element stores it, without its line breaks or with
  its line breaks normalized. The calls of the browser succeed: no exception is thrown,
  so the \<open>catch\<close> branch of the input handler is not taken. The font properties that
  the positioning functions copy to the overlay are left out.
\<close>

subsection \<open>String primitives of the host language\<close>

text \<open>The characters matched by \<open>\s\<close> and removed by \<open>trim()\<close>, below code unit 256.\<close>

definition isWhiteSpace :: "char \<Rightarrow> bool" where
  "isWhiteSpace c =
     (c = CHR 0x09 \<or> c = CHR 0x0A \<or> c = CHR 0x0B \<or> c = CHR 0x0C \<or> c = CHR 0x0D
      \<or> c = CHR 0x20 \<or> c = CHR 0xA0)"

definition trim :: "string \<Rightarrow> string" where
  "trim s = rev (dropWhile isWhiteSpace (rev (dropWhile isWhiteSpace s)))"

text \<open>
  \<open>s.split(/\s+/)\<close>: the pieces between maximal runs of white space. The flag says
  that the scan is inside such a run; \<open>acc\<close> is the piece being collected. An empty
  string gives the one piece \<open>''''\<close>, a leading or trailing run gives an empty piece.
\<close>

fun splitWs :: "bool \<Rightarrow> string \<Rightarrow> string \<Rightarrow> string list" where
  "splitWs inRun acc [] = [acc]"
| "splitWs inRun acc (c # cs) =
     (if isWhiteSpace c
      then (if inRun then splitWs True acc cs else acc # splitWs True [] cs)
      else splitWs False (acc @ [c]) cs)"

definition split :: "string \<Rightarrow> string list" where
  "split s = splitWs False [] s"

definition toLowerCaseChar :: "char \<Rightarrow> char" where
  "toLowerCaseChar c =
     (let n = (of_char c :: nat)
      in if (65 \<le> n \<and> n \<le> 90) \<or> (192 \<le> n \<and> n \<le> 222 \<and> n \<noteq> 215)
         then char_of (n + 32) else c)"

definition toLowerCase :: "string \<Rightarrow> string" where
  "toLowerCase s = map toLowerCaseChar s"

definition startsWith :: "string \<Rightarrow> string \<Rightarrow> bool" where
  "startsWith s p = (take (length p) s = p)"

fun includesStr :: "string \<Rightarrow> string \<Rightarrow> bool" where
  "includesStr [] sub = (sub = [])"
| "includesStr (c # cs) sub = (startsWith (c # cs) sub \<or> includesStr cs sub)"

text \<open>\<open>s.lastIndexOf(c)\<close>, which is \<open>-1\<close> when \<open>c\<close> does not occur.\<close>

definition lastIndexOf :: "string \<Rightarrow> char \<Rightarrow> int" where
  "lastIndexOf s c =
     (if c \<in> set s then int (length s) - 1 - int (length (takeWhile (\<lambda>x. x \<noteq> c) (rev s)))
      else - 1)"

text \<open>\<open>a || b\<close> on a string that may be absent: absent and empty are both falsy.\<close>

definition orElse :: "string option \<Rightarrow> string \<Rightarrow> string" where
  "orElse a b = (case a of None \<Rightarrow> b | Some s \<Rightarrow> (if s = [] then b else s))"

subsection \<open>Data\<close>

record response =
  rid :: string
  title :: "string option"
  content :: "string option"
  usage_count :: nat

text \<open>\<open>r.content || r.title || ""\<close>\<close>

definition suggestionText :: "response \<Rightarrow> string" where
  "suggestionText r = orElse (content r) (orElse (title r) [])"

text \<open>
  The tracked element. \<open>contenteditable\<close> says that the attribute is the string
  \<open>true\<close>. \<open>elem_value\<close> and \<open>selectionStart\<close> are the value and the caret of a text
  input or textarea; \<open>textNodes\<close> are the text nodes of an editable region.
\<close>

record element =
  contenteditable :: bool
  tagName :: string
  elem_value :: string
  selectionStart :: nat
  textNodes :: "string list"

text \<open>
  A boundary point of a range is a container and an offset: an offset into the data of
  the \<open>i\<close>-th text node, or a child index of the editable itself.
\<close>

datatype container = TextNode nat | Editable

record range =
  endContainer :: container
  endOffset :: nat

datatype maxWidth = Px real | CalcFullMinus40

record overlay =
  ov_id :: nat
  ov_textContent :: string
  ov_left :: "real option"
  ov_top :: "real option"
  ov_width :: "real option"
  ov_maxWidth :: maxWidth

record rect =
  rect_left :: real
  rect_top :: real
  rect_right :: real
  rect_width :: real
  rect_height :: real

text \<open>
  What the browser reports when an overlay is positioned: the rectangle of the caret
  range, the rectangle of the element, the parsed computed font size (\<open>None\<close> for
  \<open>NaN\<close>) and the width of the box the overlay has once it is laid out.
\<close>

record layout =
  caretRect :: rect
  containerRect :: rect
  parsedFontSize :: "real option"
  renderedWidth :: real

text \<open>
  The fields of the class, followed by the parts of the page the class reads and writes:
  the selection of the window, the host name, and the overlay nodes this manager has
  appended to \<open>document.body\<close>. \<open>nextNode\<close> numbers the nodes it creates, and
  \<open>pendingLookups\<close> holds the current texts of the storage lookups that input events
  have started and the storage has not answered yet, oldest first.
\<close>

record manager =
  element :: element
  ghostElement :: "nat option"
  currentSuggestion :: "response option"
  isComposing :: bool
  suppressedUntil :: int
  selection :: "range option"
  hostname :: string
  body :: "overlay list"
  nextNode :: nat
  pendingLookups :: "string list"

subsection \<open>The current word\<close>

definition nodeAt :: "string list \<Rightarrow> nat \<Rightarrow> string" where
  "nodeAt ns i = (if i < length ns then ns ! i else [])"

text \<open>
  The text of the range that starts with the contents of the element and ends at the end
  of the selection range (\<open>tempRange.cloneContents().textContent\<close>).
\<close>

definition textBefore :: "string list \<Rightarrow> range \<Rightarrow> string" where
  "textBefore ns r =
     (case endContainer r of
        TextNode i \<Rightarrow> concat (take i ns) @ take (endOffset r) (nodeAt ns i)
      | Editable \<Rightarrow> concat (take (endOffset r) ns))"

text \<open>\<open>words[words.length - 1] || ''\<close>; \<open>split\<close> never returns an empty array.\<close>

definition lastWord :: "string \<Rightarrow> string" where
  "lastWord text = (let words = split (trim text) in if words = [] then [] else last words)"

definition isNativeField :: "element \<Rightarrow> bool" where
  "isNativeField el = (tagName el = ''TEXTAREA'' \<or> tagName el = ''INPUT'')"

definition getCurrentText :: "manager \<Rightarrow> string" where
  "getCurrentText st =
     (if contenteditable (element st) then
        (case selection st of
           None \<Rightarrow> []
         | Some r \<Rightarrow> lastWord (textBefore (textNodes (element st)) r))
      else if isNativeField (element st) then
        (let cursorPos = selectionStart (element st);
             text = take cursorPos (elem_value (element st))
         in lastWord text)
      else [])"

subsection \<open>The ghost overlay\<close>

text \<open>\<open>node.remove()\<close>: the node leaves its parent, if it has one.\<close>

definition removeNode :: "nat \<Rightarrow> manager \<Rightarrow> manager" where
  "removeNode n st = st\<lparr>body := filter (\<lambda>ov. ov_id ov \<noteq> n) (body st)\<rparr>"

definition appendChild :: "overlay \<Rightarrow> manager \<Rightarrow> manager" where
  "appendChild ov st = st\<lparr>body := filter (\<lambda>x. ov_id x \<noteq> ov_id ov) (body st) @ [ov]\<rparr>"

definition clearGhostElement :: "manager \<Rightarrow> manager" where
  "clearGhostElement st =
     (case ghostElement st of
        None \<Rightarrow> st
      | Some g \<Rightarrow> (removeNode g st)\<lparr>ghostElement := None\<rparr>)"

definition clearSuggestion :: "manager \<Rightarrow> manager" where
  "clearSuggestion st = clearGhostElement (st\<lparr>currentSuggestion := None\<rparr>)"

text \<open>
  \<open>overlay.offsetWidth\<close> is the width of the layout box of the node. A node that is
  not in the document has no layout box, and the property is then \<open>0\<close>.
\<close>

definition offsetWidth :: "manager \<Rightarrow> layout \<Rightarrow> overlay \<Rightarrow> real" where
  "offsetWidth st lay ov =
     (if ov_id ov \<in> set (map ov_id (body st)) then renderedWidth lay else 0)"

definition positionLinkedInOverlay :: "layout \<Rightarrow> overlay \<Rightarrow> manager \<Rightarrow> manager" where
  "positionLinkedInOverlay lay ov st =
     (let cr = containerRect lay
      in appendChild
           (ov\<lparr>ov_left := Some (rect_left cr + 10),
               ov_top := Some (rect_top cr + 10),
               ov_width := Some (rect_width cr - 20)\<rparr>) st)"

definition positionTwitterOverlay :: "layout \<Rightarrow> overlay \<Rightarrow> manager \<Rightarrow> manager" where
  "positionTwitterOverlay lay ov st =
     (case selection st of
        None \<Rightarrow> st
      | Some rng \<Rightarrow>
          (let rect = caretRect lay;
               cr = containerRect lay;
               leftPx = rect_right rect + 1;
               fontSize = (case parsedFontSize lay of
                             None \<Rightarrow> 16
                           | Some f \<Rightarrow> (if f = 0 then 16 else f));
               baselineOffset = fontSize * 0.85;
               topPx = rect_top rect + (rect_height rect - fontSize) / 2 + baselineOffset - fontSize;
               overlayWidth = offsetWidth st lay ov
           in if leftPx + overlayWidth > rect_right cr - 5 then
                (let availableWidth = rect_right cr - leftPx - 10
                 in if availableWidth > 100 then
                      appendChild (ov\<lparr>ov_left := Some leftPx, ov_top := Some topPx,
                                      ov_maxWidth := Px (min 250 availableWidth)\<rparr>) st
                    else if availableWidth > 50 then
                      appendChild (ov\<lparr>ov_left := Some leftPx, ov_top := Some topPx,
                                      ov_maxWidth := Px availableWidth\<rparr>) st
                    else removeNode (ov_id ov) st)
              else appendChild (ov\<lparr>ov_left := Some leftPx, ov_top := Some topPx\<rparr>) st))"

datatype platform = LinkedIn | Twitter

text \<open>
  The arguments are \<open>text\<close>, \<open>_fullText\<close> and \<open>platform\<close> of the source; its
  \<open>_currentText\<close> is not read. The handle is set also when the positioning function
  has not appended the node.
\<close>

definition createGhostElement ::
  "layout \<Rightarrow> string \<Rightarrow> string \<Rightarrow> platform \<Rightarrow> manager \<Rightarrow> manager" where
  "createGhostElement lay text fullText pf st =
     (let st1 = clearGhostElement st
      in if contenteditable (element st1) then
           (let ov = \<lparr>ov_id = nextNode st1,
                      ov_textContent = (case pf of LinkedIn \<Rightarrow> fullText | Twitter \<Rightarrow> text),
                      ov_left = None, ov_top = None, ov_width = None,
                      ov_maxWidth = (case pf of LinkedIn \<Rightarrow> CalcFullMinus40 | Twitter \<Rightarrow> Px 300)\<rparr>;
                st2 = st1\<lparr>nextNode := Suc (nextNode st1)\<rparr>;
                st3 = (case pf of
                         LinkedIn \<Rightarrow> positionLinkedInOverlay lay ov st2
                       | Twitter \<Rightarrow> positionTwitterOverlay lay ov st2)
            in st3\<lparr>ghostElement := Some (ov_id ov)\<rparr>)
         else st1)"

definition showSuggestion :: "layout \<Rightarrow> response \<Rightarrow> string \<Rightarrow> manager \<Rightarrow> manager" where
  "showSuggestion lay suggestion currentText st =
     (let st1 = st\<lparr>currentSuggestion := Some suggestion\<rparr>;
          fullText = suggestionText suggestion;
          isTwitter = (includesStr (hostname st1) ''twitter'' \<or> includesStr (hostname st1) ''x.com'')
      in if isTwitter then
           (let displayText =
                  (if startsWith (toLowerCase fullText) (toLowerCase currentText)
                   then drop (length currentText) fullText else fullText);
                displayText2 =
                  (if length displayText > 70 then take 67 displayText @ ''...'' else displayText)
            in createGhostElement lay displayText2 fullText Twitter st1)
         else createGhostElement lay fullText fullText LinkedIn st1)"

subsection \<open>The input handler\<close>

definition matchesPrefix :: "string \<Rightarrow> response \<Rightarrow> bool" where
  "matchesPrefix prefix r = startsWith (toLowerCase (suggestionText r)) (toLowerCase prefix)"

text \<open>The argument \<open>responses\<close> is what the local storage holds (\<open>[]\<close> when it holds nothing).\<close>

definition fetchSuggestions :: "response list \<Rightarrow> string \<Rightarrow> response list" where
  "fetchSuggestions responses prefix = filter (matchesPrefix prefix) responses"

text \<open>
  \<open>handleInput\<close> is an \<open>async\<close> function: it runs up to \<open>await fetchSuggestions\<close>
  inside the event dispatch, and the rest runs when the storage has answered. The first
  part either finishes or leaves a lookup for the current text pending.
\<close>

datatype inputResult = Finished manager | AwaitFetch string manager

definition handleInput_sync :: "int \<Rightarrow> manager \<Rightarrow> inputResult" where
  "handleInput_sync now st =
     (if now < suppressedUntil st then Finished (clearSuggestion st)
      else if isComposing st then Finished st
      else
        (let currentText = getCurrentText st
         in if currentText = [] \<or> length currentText < 2 then Finished (clearSuggestion st)
            else if contenteditable (element st)
                    \<and> length (trim (concat (textNodes (element st)))) = 0
                 then Finished (clearSuggestion st)
            else AwaitFetch currentText st))"

definition handleInput_resume ::
  "layout \<Rightarrow> response list \<Rightarrow> string \<Rightarrow> manager \<Rightarrow> manager" where
  "handleInput_resume lay responses currentText st =
     (let suggestions = fetchSuggestions responses currentText
      in if length suggestions = 0 then clearSuggestion st
         else
           (let matches = filter (matchesPrefix currentText) suggestions
            in case matches of
                 [] \<Rightarrow> clearSuggestion st
               | suggestion # _ \<Rightarrow> showSuggestion lay suggestion currentText st))"

text \<open>The whole handler, when the storage answers before any other event arrives.\<close>

definition handleInput :: "int \<Rightarrow> layout \<Rightarrow> response list \<Rightarrow> manager \<Rightarrow> manager" where
  "handleInput now lay responses st =
     (case handleInput_sync now st of
        Finished st1 \<Rightarrow> st1
      | AwaitFetch currentText st1 \<Rightarrow> handleInput_resume lay responses currentText st1)"

text \<open>
  \<open>dispatchEvent(new Event('input'))\<close> on the element calls the listener of the manager
  before it returns; \<open>now\<close> is what \<open>Date.now()\<close> gives the listener. A lookup it
  leaves pending is answered after the dispatching function has returned.
\<close>

definition dispatchInput :: "int \<Rightarrow> manager \<Rightarrow> manager" where
  "dispatchInput now st =
     (case handleInput_sync now st of
        Finished st1 \<Rightarrow> st1
      | AwaitFetch currentText st1 \<Rightarrow>
          st1\<lparr>pendingLookups := pendingLookups st1 @ [currentText]\<rparr>)"

text \<open>The storage answers the oldest pending lookup with the list it holds.\<close>

definition storageResult :: "layout \<Rightarrow> response list \<Rightarrow> manager \<Rightarrow> manager" where
  "storageResult lay responses st =
     (case pendingLookups st of
        [] \<Rightarrow> st
      | currentText # rest \<Rightarrow>
          handleInput_resume lay responses currentText (st\<lparr>pendingLookups := rest\<rparr>))"

subsection \<open>Ranges over the text nodes\<close>

type_synonym point = "container \<times> nat"

text \<open>
  The order of boundary points in the document: the point before child \<open>j\<close> of the
  editable comes before every point inside child \<open>j\<close> and after every point inside
  child \<open>j - 1\<close>.
\<close>

fun pointKey :: "point \<Rightarrow> nat \<times> nat" where
  "pointKey (TextNode i, k) = (2 * i + 1, k)"
| "pointKey (Editable, j) = (2 * j, 0)"

definition isBefore :: "point \<Rightarrow> point \<Rightarrow> bool" where
  "isBefore p q =
     (fst (pointKey p) < fst (pointKey q)
      \<or> (fst (pointKey p) = fst (pointKey q) \<and> snd (pointKey p) < snd (pointKey q)))"

text \<open>\<open>range.setEnd\<close> on a range that starts at \<open>s\<close>: an end before the start moves the start.\<close>

definition setEnd :: "point \<Rightarrow> point \<Rightarrow> point \<times> point" where
  "setEnd s e = (if isBefore e s then (e, e) else (s, e))"

fun headPart :: "string list \<Rightarrow> point \<Rightarrow> string list" where
  "headPart ns (TextNode i, k) = take i ns @ [take k (nodeAt ns i)]"
| "headPart ns (Editable, j) = take j ns"

fun tailPart :: "string list \<Rightarrow> point \<Rightarrow> string list" where
  "tailPart ns (TextNode i, k) = drop k (nodeAt ns i) # drop (Suc i) ns"
| "tailPart ns (Editable, j) = drop j ns"

text \<open>
  \<open>range.deleteContents()\<close> for a range from \<open>s\<close> to \<open>e\<close>: inside one text node the
  data between the offsets goes; otherwise the start node is cut after the start offset,
  the end node before the end offset, and the nodes between them are removed. The result
  is the new list of nodes and the point at which the range is collapsed afterwards: the
  start, when both ends are in one text node or the start is a point of the editable,
  and otherwise the point of the editable behind the text node that holds the start.
\<close>

fun deleteContents :: "string list \<Rightarrow> point \<Rightarrow> point \<Rightarrow> string list \<times> point" where
  "deleteContents ns (TextNode i, ks) (TextNode i2, ke) =
     (if i = i2
      then (take i ns @ [take ks (nodeAt ns i) @ drop ke (nodeAt ns i)] @ drop (Suc i) ns,
            (TextNode i, ks))
      else (headPart ns (TextNode i, ks) @ tailPart ns (TextNode i2, ke), (Editable, Suc i)))"
| "deleteContents ns (TextNode i, ks) (Editable, j) =
     (headPart ns (TextNode i, ks) @ tailPart ns (Editable, j), (Editable, Suc i))"
| "deleteContents ns (Editable, j) e =
     (headPart ns (Editable, j) @ tailPart ns e, (Editable, j))"

text \<open>
  \<open>range.insertNode(textNode)\<close> for a range that starts at a point: a text node
  holding the point is split at the offset and the new node goes between the halves; at
  a point of the editable the new node becomes the child with that index. The result is
  the new list of nodes and the index of the inserted one.
\<close>

fun insertNode :: "string list \<Rightarrow> point \<Rightarrow> string \<Rightarrow> string list \<times> nat" where
  "insertNode ns (TextNode i, k) new =
     (take i ns @ [take k (nodeAt ns i), new, drop k (nodeAt ns i)] @ drop (Suc i) ns, Suc i)"
| "insertNode ns (Editable, j) new = (take j ns @ [new] @ drop j ns, min j (length ns))"

subsection \<open>Accepting a suggestion\<close>

text \<open>
  The loop over the \<open>TreeWalker\<close>: \<open>ns\<close> are the text nodes not visited yet, \<open>i\<close> the
  index of the first of them, \<open>currentOffset\<close> the length of the text before it.
\<close>

fun findStartNode :: "string list \<Rightarrow> nat \<Rightarrow> nat \<Rightarrow> nat \<Rightarrow> (nat \<times> nat) option" where
  "findStartNode [] i currentOffset startIndex = None"
| "findStartNode (n # ns) i currentOffset startIndex =
     (if currentOffset + length n \<ge> startIndex then Some (i, startIndex - currentOffset)
      else findStartNode ns (Suc i) (currentOffset + length n) startIndex)"

definition replaceInContentEditable :: "int \<Rightarrow> string \<Rightarrow> manager \<Rightarrow> manager" where
  "replaceInContentEditable tDispatch fullText st =
     (case selection st of
        None \<Rightarrow> st
      | Some rng \<Rightarrow>
          (let ns = textNodes (element st);
               currentContent = textBefore ns rng;
               lastSpaceIndex = lastIndexOf currentContent CHR '' '';
               startIndex = (if lastSpaceIndex \<ge> 0 then nat (lastSpaceIndex + 1) else 0)
           in case findStartNode ns 0 0 startIndex of
                None \<Rightarrow> st
              | Some (startNode, startOffset) \<Rightarrow>
                  (let (s, e) = setEnd (TextNode startNode, startOffset)
                                       (endContainer rng, endOffset rng);
                       (ns1, collapsed) = deleteContents ns s e;
                       (ns2, j) = insertNode ns1 collapsed fullText;
                       st1 = st\<lparr>element := (element st)\<lparr>textNodes := ns2\<rparr>,
                                selection := Some \<lparr>endContainer = Editable, endOffset = Suc j\<rparr>\<rparr>
                   in dispatchInput tDispatch st1)))"

text \<open>
  The loop that finds the start of the word in a text field. The second argument is
  \<open>startPos + 1\<close>; the result is \<open>startPos\<close> after the final increment. An index past
  the end of the value reads \<open>undefined\<close>, which is neither a space nor a line feed.
\<close>

fun wordStart :: "string \<Rightarrow> nat \<Rightarrow> nat" where
  "wordStart v 0 = 0"
| "wordStart v (Suc p) =
     (if p < length v \<and> (v ! p = CHR '' '' \<or> v ! p = CHR 0x0A) then Suc p
      else wordStart v p)"

text \<open>
  The assignment \<open>input.value = newValue\<close>, as the value reads afterwards. An input
  of type text drops every line feed and carriage return of the string. A textarea
  gives the string back with each carriage return, alone or followed by a line feed,
  turned into one line feed.
\<close>

definition stripNewlines :: "string \<Rightarrow> string" where
  "stripNewlines v = filter (\<lambda>c. c \<noteq> CHR 0x0A \<and> c \<noteq> CHR 0x0D) v"

fun normalizeNewlines :: "string \<Rightarrow> string" where
  "normalizeNewlines [] = []"
| "normalizeNewlines [c] = (if c = CHR 0x0D then [CHR 0x0A] else [c])"
| "normalizeNewlines (c # d # ds) =
     (if c = CHR 0x0D \<and> d = CHR 0x0A then CHR 0x0A # normalizeNewlines ds
      else if c = CHR 0x0D then CHR 0x0A # normalizeNewlines (d # ds)
      else c # normalizeNewlines (d # ds))"

definition storedValue :: "element \<Rightarrow> string \<Rightarrow> string" where
  "storedValue input v =
     (if tagName input = ''INPUT'' then stripNewlines v
      else if tagName input = ''TEXTAREA'' then normalizeNewlines v
      else v)"

text \<open>
  \<open>setSelectionRange\<close> puts the caret at the given offset, or at the end of the value
  when the offset lies behind it.
\<close>

definition replaceInInput :: "int \<Rightarrow> string \<Rightarrow> manager \<Rightarrow> manager" where
  "replaceInInput tDispatch fullText st =
     (let input = element st;
          cursorPos = selectionStart input;
          v = elem_value input;
          startPos = wordStart v cursorPos;
          newValue = take startPos v @ fullText @ drop cursorPos v;
          stored = storedValue input newValue;
          newCursorPos = startPos + length fullText;
          st1 = st\<lparr>element := input\<lparr>elem_value := stored,
                                      selectionStart := min newCursorPos (length stored)\<rparr>\<rparr>
      in dispatchInput tDispatch st1)"

text \<open>
  \<open>now\<close> is the reading of the clock in \<open>acceptSuggestion\<close>, \<open>tDispatch\<close> the reading
  in the listener that the dispatched \<open>input\<close> event calls.
\<close>

definition acceptSuggestion :: "int \<Rightarrow> int \<Rightarrow> manager \<Rightarrow> manager" where
  "acceptSuggestion now tDispatch st =
     (case currentSuggestion st of
        None \<Rightarrow> st
      | Some suggestion \<Rightarrow>
          (let st1 = st\<lparr>suppressedUntil := now + 500\<rparr>;
               fullText = suggestionText suggestion;
               st2 = (if contenteditable (element st1)
                      then replaceInContentEditable tDispatch fullText st1
                      else if isNativeField (element st1)
                      then replaceInInput tDispatch fullText st1
                      else st1)
           in clearSuggestion st2))"

subsection \<open>The keydown handler and the other listeners\<close>

text \<open>
  For Backspace and Delete the handler only starts a timer of 10 ms;
  \<open>backspaceTimeout\<close> is its callback.
\<close>

definition handleKeydown :: "int \<Rightarrow> int \<Rightarrow> string \<Rightarrow> manager \<Rightarrow> manager" where
  "handleKeydown now tDispatch key st =
     (if key = ''Tab'' \<and> currentSuggestion st \<noteq> None then acceptSuggestion now tDispatch st
      else if key = ''Escape'' \<and> currentSuggestion st \<noteq> None then clearSuggestion st
      else if key = ''Backspace'' \<or> key = ''Delete'' then st
      else st)"

definition backspaceTimeout :: "manager \<Rightarrow> manager" where
  "backspaceTimeout st =
     (let currentText = getCurrentText st
      in if currentText = [] \<or> length currentText < 2 then clearSuggestion st else st)"

text \<open>The state the constructor leaves.\<close>

definition newManager :: "element \<Rightarrow> range option \<Rightarrow> string \<Rightarrow> manager" where
  "newManager el sel host =
     \<lparr>element = el, ghostElement = None, currentSuggestion = None, isComposing = False,
      suppressedUntil = 0, selection = sel, hostname = host, body = [], nextNode = 0,
      pendingLookups = []\<rparr>"

text \<open>
  What can happen to a manager: its five listeners, the answer of the storage to a
  pending lookup, the timer of the keydown handler, and the user or the page changing
  the text and the selection.
\<close>

datatype event =
    Input int
  | StorageResult layout "response list"
  | Keydown int int string
  | BackspaceTimeout
  | Blur
  | CompositionStart
  | CompositionEnd
  | Edit string nat "string list" "range option"

fun step :: "event \<Rightarrow> manager \<Rightarrow> manager" where
  "step (Input now) st = dispatchInput now st"
| "step (StorageResult lay responses) st = storageResult lay responses st"
| "step (Keydown now tDispatch key) st = handleKeydown now tDispatch key st"
| "step BackspaceTimeout st = backspaceTimeout st"
| "step Blur st = clearSuggestion st"
| "step CompositionStart st = st\<lparr>isComposing := True\<rparr>"
| "step CompositionEnd st = st\<lparr>isComposing := False\<rparr>"
| "step (Edit v pos ns sel) st =
     st\<lparr>element := (element st)\<lparr>elem_value := v, selectionStart := pos, textNodes := ns\<rparr>,
        selection := sel\<rparr>"

fun run :: "event list \<Rightarrow> manager \<Rightarrow> manager" where
  "run [] st = st"
| "run (ev # evs) st = run evs (step ev st)"

subsection \<open>Example pages\<close>

definition thanksRecord :: response where
  "thanksRecord =
     \<lparr>rid = ''r1'', title = Some ''Thanks'', content = Some ''Thank you for connecting!'',
      usage_count = 0\<rparr>"

definition textareaWith :: "string \<Rightarrow> nat \<Rightarrow> element" where
  "textareaWith v pos =
     \<lparr>contenteditable = False, tagName = ''TEXTAREA'', elem_value = v, selectionStart = pos,
      textNodes = []\<rparr>"

definition inputWith :: "string \<Rightarrow> nat \<Rightarrow> element" where
  "inputWith v pos =
     \<lparr>contenteditable = False, tagName = ''INPUT'', elem_value = v, selectionStart = pos,
      textNodes = []\<rparr>"

text \<open>A record whose content has two lines, separated by a carriage return and a line feed.\<close>

definition twoLineRecord :: response where
  "twoLineRecord =
     \<lparr>rid = ''r4'', title = Some ''Regards'',
      content = Some (''Kind regards,'' @ [CHR 0x0D, CHR 0x0A] @ ''Ada''), usage_count = 2\<rparr>"

definition editableWith :: "string list \<Rightarrow> element" where
  "editableWith ns =
     \<lparr>contenteditable = True, tagName = ''DIV'', elem_value = [], selectionStart = 0,
      textNodes = ns\<rparr>"

definition caretAt :: "nat \<Rightarrow> nat \<Rightarrow> range option" where
  "caretAt i k = Some \<lparr>endContainer = TextNode i, endOffset = k\<rparr>"

text \<open>
  A caret whose rectangle ends 31 pixels before the right edge of an editable that is
  300 pixels wide, and an overlay text that is 200 pixels wide once it is laid out.
\<close>

definition narrowLayout :: layout where
  "narrowLayout =
     \<lparr>caretRect = \<lparr>rect_left = 269, rect_top = 10, rect_right = 269, rect_width = 0,
                   rect_height = 20\<rparr>,
      containerRect = \<lparr>rect_left = 0, rect_top = 0, rect_right = 300, rect_width = 300,
                       rect_height = 40\<rparr>,
      parsedFontSize = Some 15, renderedWidth = 200\<rparr>"

text \<open>An editable region on LinkedIn that shows a suggestion for the typed word.\<close>

definition shownState :: manager where
  "shownState =
     \<lparr>element = editableWith [''Thank''], ghostElement = Some 0,
      currentSuggestion = Some thanksRecord, isComposing = False, suppressedUntil = 0,
      selection = caretAt 0 5, hostname = ''www.linkedin.com'',
      body = [\<lparr>ov_id = 0, ov_textContent = ''Thank you for connecting!'',
               ov_left = Some 10, ov_top = Some 10, ov_width = Some 280,
               ov_maxWidth = CalcFullMinus40\<rparr>],
      nextNode = 1, pendingLookups = []\<rparr>"

definition textareaPage :: "string \<Rightarrow> manager" where
  "textareaPage v = newManager (textareaWith v (length v)) None ''www.linkedin.com''"

definition inputPage :: "string \<Rightarrow> manager" where
  "inputPage v = newManager (inputWith v (length v)) None ''www.linkedin.com''"

definition editablePage :: "string \<Rightarrow> string \<Rightarrow> manager" where
  "editablePage host v = newManager (editableWith [v]) (caretAt 0 (length v)) host"

definition hiLong :: response where
  "hiLong =
     \<lparr>rid = ''r2'', title = Some ''Greeting'',
      content = Some ''Hi there, thanks for reaching out'', usage_count = 0\<rparr>"

definition hiShort :: response where
  "hiShort = \<lparr>rid = ''r3'', title = Some ''Hi'', content = Some ''Hi!'', usage_count = 9\<rparr>"

text \<open>A word that follows a tab, and a word that follows a line feed.\<close>

definition tabSeparated :: string where
  "tabSeparated = [CHR ''O'', CHR ''K'', CHR 0x09, CHR ''T'', CHR ''h'']"

definition lineSeparated :: string where
  "lineSeparated = [CHR ''O'', CHR ''K'', CHR 0x0A, CHR ''T'', CHR ''h'']"

text \<open>
  A suggestion is shown for \<open>Thank\<close>; a composition starts; the text shrinks to
  \<open>T\<close>.
\<close>

definition composingState :: manager where
  "composingState =
     run [Input 1000, StorageResult narrowLayout [thanksRecord], CompositionStart,
          Edit ''T'' 1 [] None]
         (textareaPage ''Thank'')"

text \<open>Two suggestions in a row for a growing word in an editable region.\<close>

definition typingEvents :: "event list" where
  "typingEvents =
     [Input 1000, StorageResult narrowLayout [thanksRecord],
      Edit [] 0 [''Than''] (caretAt 0 4),
      Input 1100, StorageResult narrowLayout [thanksRecord]]"


subsection \<open>Notions the properties are stated with\<close>

text \<open>The contiguous run of characters other than white space at the end of a text.\<close>

definition wordAtEnd :: "string \<Rightarrow> string" where
  "wordAtEnd t = rev (takeWhile (\<lambda>c. \<not> isWhiteSpace c) (rev t))"

definition dropTrailingWs :: "string \<Rightarrow> string" where
  "dropTrailingWs t = rev (dropWhile isWhiteSpace (rev t))"

text \<open>
  The document holds no overlay of the manager, or exactly one, and then the handle of
  the manager refers to it.
\<close>

definition singleOverlay :: "manager \<Rightarrow> bool" where
  "singleOverlay st =
     (body st = [] \<or> map (\<lambda>ov. Some (ov_id ov)) (body st) = [ghostElement st])"


text \<open>
  The content a commit must leave according to the specification: the text before the
  typed word, the suggestion, the text after the caret. The typed word is the run of
  characters other than white space that ends at the caret.
\<close>

definition spec_commit :: "string \<Rightarrow> nat \<Rightarrow> string \<Rightarrow> string" where
  "spec_commit text caret suggestion =
     take (caret - length (wordAtEnd (take caret text))) text @ suggestion @ drop caret text"

text \<open>
  A boundary point that exists in the list of text nodes, and the number of characters
  of the text that stand before it.
\<close>

fun validPoint :: "string list \<Rightarrow> point \<Rightarrow> bool" where
  "validPoint ns (TextNode i, k) = (i < length ns \<and> k \<le> length (ns ! i))"
| "validPoint ns (Editable, j) = (j \<le> length ns)"

fun absOffset :: "string list \<Rightarrow> point \<Rightarrow> nat" where
  "absOffset ns (TextNode i, k) = length (concat (take i ns)) + k"
| "absOffset ns (Editable, j) = length (concat (take j ns))"

text \<open>
  Deleting the contents of a range and inserting a new text node where the range has
  collapsed, as \<open>replaceInContentEditable\<close> does one after the other.
\<close>

definition replaceRange ::
  "string list \<Rightarrow> point \<Rightarrow> point \<Rightarrow> string \<Rightarrow> string list \<times> nat" where
  "replaceRange ns s e new =
     insertNode (fst (deleteContents ns s e)) (snd (deleteContents ns s e)) new"

section \<open>Properties\<close>

subsection \<open>Clearing\<close>

lemma clearGhostElement_fields:
  "currentSuggestion (clearGhostElement st) = currentSuggestion st"
  "ghostElement (clearGhostElement st) = None"
  "element (clearGhostElement st) = element st"
  "selection (clearGhostElement st) = selection st"
  "suppressedUntil (clearGhostElement st) = suppressedUntil st"
  "isComposing (clearGhostElement st) = isComposing st"
  "pendingLookups (clearGhostElement st) = pendingLookups st"
  "hostname (clearGhostElement st) = hostname st"
  by (simp_all add: clearGhostElement_def removeNode_def split: option.split)

lemma clearGhostElement_body:
  "body (clearGhostElement st) =
     (case ghostElement st of None \<Rightarrow> body st
      | Some g \<Rightarrow> filter (\<lambda>ov. ov_id ov \<noteq> g) (body st))"
  by (simp add: clearGhostElement_def removeNode_def split: option.split)

lemma clearSuggestion_fields:
  "currentSuggestion (clearSuggestion st) = None"
  "ghostElement (clearSuggestion st) = None"
  "element (clearSuggestion st) = element st"
  "selection (clearSuggestion st) = selection st"
  "suppressedUntil (clearSuggestion st) = suppressedUntil st"
  "isComposing (clearSuggestion st) = isComposing st"
  "pendingLookups (clearSuggestion st) = pendingLookups st"
  "hostname (clearSuggestion st) = hostname st"
  by (simp_all add: clearSuggestion_def clearGhostElement_fields)

lemma clearSuggestion_body:
  "body (clearSuggestion st) =
     (case ghostElement st of None \<Rightarrow> body st
      | Some g \<Rightarrow> filter (\<lambda>ov. ov_id ov \<noteq> g) (body st))"
  by (simp add: clearSuggestion_def clearGhostElement_body split: option.split)

subsection \<open>What the overlay functions leave alone\<close>

lemma appendChild_fields:
  "currentSuggestion (appendChild ov st) = currentSuggestion st"
  "ghostElement (appendChild ov st) = ghostElement st"
  "element (appendChild ov st) = element st"
  "selection (appendChild ov st) = selection st"
  "suppressedUntil (appendChild ov st) = suppressedUntil st"
  "isComposing (appendChild ov st) = isComposing st"
  "pendingLookups (appendChild ov st) = pendingLookups st"
  "hostname (appendChild ov st) = hostname st"
  by (simp_all add: appendChild_def)

lemma removeNode_fields:
  "currentSuggestion (removeNode n st) = currentSuggestion st"
  "ghostElement (removeNode n st) = ghostElement st"
  "element (removeNode n st) = element st"
  "selection (removeNode n st) = selection st"
  "suppressedUntil (removeNode n st) = suppressedUntil st"
  "isComposing (removeNode n st) = isComposing st"
  "pendingLookups (removeNode n st) = pendingLookups st"
  "hostname (removeNode n st) = hostname st"
  by (simp_all add: removeNode_def)

lemma positionLinkedInOverlay_fields:
  "currentSuggestion (positionLinkedInOverlay lay ov st) = currentSuggestion st"
  "element (positionLinkedInOverlay lay ov st) = element st"
  "selection (positionLinkedInOverlay lay ov st) = selection st"
  "suppressedUntil (positionLinkedInOverlay lay ov st) = suppressedUntil st"
  "isComposing (positionLinkedInOverlay lay ov st) = isComposing st"
  "pendingLookups (positionLinkedInOverlay lay ov st) = pendingLookups st"
  by (simp_all add: positionLinkedInOverlay_def Let_def appendChild_fields)

lemma positionTwitterOverlay_fields:
  "currentSuggestion (positionTwitterOverlay lay ov st) = currentSuggestion st"
  "element (positionTwitterOverlay lay ov st) = element st"
  "selection (positionTwitterOverlay lay ov st) = selection st"
  "suppressedUntil (positionTwitterOverlay lay ov st) = suppressedUntil st"
  "isComposing (positionTwitterOverlay lay ov st) = isComposing st"
  "pendingLookups (positionTwitterOverlay lay ov st) = pendingLookups st"
  by (simp_all add: positionTwitterOverlay_def Let_def appendChild_fields removeNode_fields
        split: option.split)

lemma createGhostElement_fields:
  "currentSuggestion (createGhostElement lay text fullText pf st) = currentSuggestion st"
  "element (createGhostElement lay text fullText pf st) = element st"
  "selection (createGhostElement lay text fullText pf st) = selection st"
  "suppressedUntil (createGhostElement lay text fullText pf st) = suppressedUntil st"
  "isComposing (createGhostElement lay text fullText pf st) = isComposing st"
  "pendingLookups (createGhostElement lay text fullText pf st) = pendingLookups st"
  by (simp_all add: createGhostElement_def Let_def clearGhostElement_fields
        positionLinkedInOverlay_fields positionTwitterOverlay_fields split: platform.split)

lemma showSuggestion_fields:
  "currentSuggestion (showSuggestion lay r cur st) = Some r"
  "element (showSuggestion lay r cur st) = element st"
  "selection (showSuggestion lay r cur st) = selection st"
  "suppressedUntil (showSuggestion lay r cur st) = suppressedUntil st"
  "isComposing (showSuggestion lay r cur st) = isComposing st"
  "pendingLookups (showSuggestion lay r cur st) = pendingLookups st"
  by (simp_all add: showSuggestion_def Let_def createGhostElement_fields)

lemma dispatchInput_fields:
  "element (dispatchInput t st) = element st"
  "selection (dispatchInput t st) = selection st"
  "suppressedUntil (dispatchInput t st) = suppressedUntil st"
  "isComposing (dispatchInput t st) = isComposing st"
  by (simp_all add: dispatchInput_def handleInput_sync_def Let_def clearSuggestion_fields)

lemma replaceInInput_element:
  "element (replaceInInput t fullText st) =
     (element st)\<lparr>elem_value :=
         storedValue (element st)
           (take (wordStart (elem_value (element st)) (selectionStart (element st)))
                 (elem_value (element st))
            @ fullText @ drop (selectionStart (element st)) (elem_value (element st))),
       selectionStart :=
         min (wordStart (elem_value (element st)) (selectionStart (element st)) + length fullText)
             (length (storedValue (element st)
                (take (wordStart (elem_value (element st)) (selectionStart (element st)))
                      (elem_value (element st))
                 @ fullText @ drop (selectionStart (element st)) (elem_value (element st)))))\<rparr>"
  by (simp add: replaceInInput_def Let_def dispatchInput_fields)

lemma wordStart_le: "wordStart v p \<le> p"
  by (induction p) auto



lemma replaceInInput_caret:
  assumes "selectionStart (element st) \<le> length (elem_value (element st))"
    and "storedValue (element st)
           (take (wordStart (elem_value (element st)) (selectionStart (element st)))
                 (elem_value (element st))
            @ fullText @ drop (selectionStart (element st)) (elem_value (element st)))
         = take (wordStart (elem_value (element st)) (selectionStart (element st)))
                (elem_value (element st))
           @ fullText @ drop (selectionStart (element st)) (elem_value (element st))"
  shows "selectionStart (element (replaceInInput t fullText st)) =
           wordStart (elem_value (element st)) (selectionStart (element st)) + length fullText"
proof -
  let ?v = "elem_value (element st)" and ?p = "selectionStart (element st)"
  have "wordStart ?v ?p \<le> ?p" by (rule wordStart_le)
  then have "wordStart ?v ?p + length fullText
               \<le> length (take (wordStart ?v ?p) ?v @ fullText @ drop ?p ?v)"
    using assms(1) by simp
  then show ?thesis
    by (simp only: replaceInInput_element assms(2) min_absorb1) simp
qed

lemma acceptSuggestion_native:
  assumes "currentSuggestion st = Some r" and "\<not> contenteditable (element st)"
    and "isNativeField (element st)"
  shows "elem_value (element (acceptSuggestion now t st)) =
           storedValue (element st)
             (take (wordStart (elem_value (element st)) (selectionStart (element st)))
                   (elem_value (element st))
              @ suggestionText r @ drop (selectionStart (element st)) (elem_value (element st)))"
proof -
  have acc: "element (acceptSuggestion now t st)
      = element (replaceInInput t (suggestionText r) (st\<lparr>suppressedUntil := now + 500\<rparr>))"
    using assms by (simp add: acceptSuggestion_def Let_def clearSuggestion_fields)
  show ?thesis
    by (simp add: acc replaceInInput_element)
qed

subsection \<open>The last word of a text\<close>

text \<open>
  The last piece of \<open>split\<close> is the run of other characters at the end of the text,
  and trimming first makes it the run that ends where the trailing white space begins.
\<close>

lemma wordAtEnd_all: "\<forall>c \<in> set s. \<not> isWhiteSpace c \<Longrightarrow> wordAtEnd s = s"
  by (simp add: wordAtEnd_def takeWhile_eq_all_conv [THEN iffD2])

lemma wordAtEnd_Cons_ws: "isWhiteSpace c \<Longrightarrow>
   wordAtEnd (c # cs) = (if \<forall>x \<in> set cs. \<not> isWhiteSpace x then cs else wordAtEnd cs)"
  by (auto simp: wordAtEnd_def takeWhile_append)

lemma wordAtEnd_Cons_some_ws: "\<exists>x \<in> set cs. isWhiteSpace x \<Longrightarrow> wordAtEnd (c # cs) = wordAtEnd cs"
  by (auto simp: wordAtEnd_def takeWhile_append)

lemma splitWs_nonempty: "splitWs b acc s \<noteq> []"
  by (induction s arbitrary: b acc) auto

lemma last_splitWs:
  "(b \<Longrightarrow> acc = []) \<Longrightarrow>
   last (splitWs b acc s) = (if \<forall>c \<in> set s. \<not> isWhiteSpace c then acc @ s else wordAtEnd s)"
proof (induction s arbitrary: b acc)
  case Nil
  then show ?case by simp
next
  case (Cons c cs)
  show ?case
  proof (cases "isWhiteSpace c")
    case True
    have "last (splitWs b acc (c # cs)) = last (splitWs True [] cs)"
      using True Cons.prems by (cases b) (simp_all add: splitWs_nonempty)
    also have "\<dots> = (if \<forall>x \<in> set cs. \<not> isWhiteSpace x then cs else wordAtEnd cs)"
      using Cons.IH [of True "[]"] by simp
    finally show ?thesis using True by (simp add: wordAtEnd_Cons_ws)
  next
    case False
    have "last (splitWs b acc (c # cs)) = last (splitWs False (acc @ [c]) cs)"
      using False by simp
    also have "\<dots> = (if \<forall>x \<in> set cs. \<not> isWhiteSpace x then (acc @ [c]) @ cs else wordAtEnd cs)"
      using Cons.IH [of False "acc @ [c]"] by simp
    finally show ?thesis using False by (auto simp: wordAtEnd_Cons_some_ws)
  qed
qed

lemma last_split: "last (split s) = wordAtEnd s"
  using last_splitWs [of False "[]" s] by (auto simp: split_def wordAtEnd_all)

lemma lastWord_trim: "lastWord t = wordAtEnd (trim t)"
  by (simp add: lastWord_def Let_def split_def splitWs_nonempty last_split [unfolded split_def])

lemma takeWhile_dropWhile_append:
  "\<forall>x \<in> set ys. isWhiteSpace x \<Longrightarrow>
   takeWhile (\<lambda>c. \<not> isWhiteSpace c) (dropWhile isWhiteSpace (xs @ ys))
   = takeWhile (\<lambda>c. \<not> isWhiteSpace c) (dropWhile isWhiteSpace xs)"
proof (induction xs)
  case Nil
  then show ?case by (simp add: dropWhile_eq_Nil_conv[THEN iffD2])
next
  case (Cons a xs)
  show ?case
  proof (cases "isWhiteSpace a")
    case True
    then show ?thesis using Cons by simp
  next
    case False
    have "takeWhile (\<lambda>c. \<not> isWhiteSpace c) (xs @ ys) = takeWhile (\<lambda>c. \<not> isWhiteSpace c) xs"
      using Cons.prems by (induction xs) (auto simp: takeWhile_eq_Nil_iff intro: hd_in_set)
    then show ?thesis using False by simp
  qed
qed

lemma wordAtEnd_trim: "wordAtEnd (trim t) = wordAtEnd (dropTrailingWs t)"
proof -
  have t: "t = takeWhile isWhiteSpace t @ dropWhile isWhiteSpace t" by simp
  have "rev t = rev (dropWhile isWhiteSpace t) @ rev (takeWhile isWhiteSpace t)"
    by (subst t) (simp only: rev_append)
  moreover have "\<forall>x \<in> set (rev (takeWhile isWhiteSpace t)). isWhiteSpace x"
    by (auto dest: set_takeWhileD)
  ultimately have "takeWhile (\<lambda>c. \<not> isWhiteSpace c) (dropWhile isWhiteSpace (rev t))
      = takeWhile (\<lambda>c. \<not> isWhiteSpace c) (dropWhile isWhiteSpace (rev (dropWhile isWhiteSpace t)))"
    using takeWhile_dropWhile_append by metis
  then show ?thesis by (simp add: wordAtEnd_def trim_def dropTrailingWs_def)
qed

lemma lastWord_eq: "lastWord t = wordAtEnd (dropTrailingWs t)"
  by (simp add: lastWord_trim wordAtEnd_trim)

lemma lastWord_no_trailing: "t \<noteq> [] \<Longrightarrow> \<not> isWhiteSpace (last t) \<Longrightarrow> lastWord t = wordAtEnd t"
  by (simp add: lastWord_eq dropTrailingWs_def) (cases t rule: rev_cases, auto)

lemma lastWord_subset: "set (lastWord t) \<subseteq> {c \<in> set t. \<not> isWhiteSpace c}"
proof -
  have "set (wordAtEnd (dropTrailingWs t)) \<subseteq> {c \<in> set t. \<not> isWhiteSpace c}"
    by (auto simp: wordAtEnd_def dropTrailingWs_def dest!: set_takeWhileD dest: set_dropWhileD)
  then show ?thesis by (simp add: lastWord_eq)
qed

lemma trim_Nil_iff: "trim s = [] \<longleftrightarrow> (\<forall>c \<in> set s. isWhiteSpace c)"
proof -
  have "set s = set (takeWhile isWhiteSpace s) \<union> set (dropWhile isWhiteSpace s)"
    by (metis set_append takeWhile_dropWhile_id)
  moreover have "\<forall>c \<in> set (takeWhile isWhiteSpace s). isWhiteSpace c"
    by (auto dest: set_takeWhileD)
  ultimately have "(\<forall>c \<in> set (dropWhile isWhiteSpace s). isWhiteSpace c)
      \<longleftrightarrow> (\<forall>c \<in> set s. isWhiteSpace c)"
    by auto
  then show ?thesis by (simp add: trim_def)
qed

subsection \<open>The current word\<close>

text \<open>
  C8, as the claim states it, fails: in a textarea holding \<open>Thank\<close> and a space, with
  the caret at the end, the run of characters other than white space that ends at the
  caret is empty, and \<open>getCurrentText\<close> returns \<open>Thank\<close>.
\<close>

theorem current_text_after_space_counterexample:
  "getCurrentText (textareaPage ''Thank '') = ''Thank''
   \<and> wordAtEnd (take (selectionStart (element (textareaPage ''Thank '')))
                     (elem_value (element (textareaPage ''Thank '')))) = []"
  by code_simp

text \<open>
  C8, amended. \<open>getCurrentText\<close> returns the last word of the text before the caret:
  the contiguous run of characters other than white space that ends at the caret or,
  when white space stands immediately before the caret, where that white space begins.
  The text before the caret is the text from the start of the editable region to the end
  of the selection range, or the value of the input up to \<open>selectionStart\<close>. The
  result is empty when an editable region has no selection, when the caret is at the
  start of the content, and when the element is neither an editable region nor an input
  or textarea. Where the character before the caret is not white space, the result is
  the run that ends at the caret. The function returns a string and no state: it changes
  nothing.
\<close>

theorem current_text_is_last_word:
  "(contenteditable (element st) \<longrightarrow> selection st = None \<longrightarrow> getCurrentText st = [])
   \<and> (\<forall>r. contenteditable (element st) \<longrightarrow> selection st = Some r \<longrightarrow>
          getCurrentText st
            = wordAtEnd (dropTrailingWs (textBefore (textNodes (element st)) r))
          \<and> (textBefore (textNodes (element st)) r = [] \<longrightarrow> getCurrentText st = []))
   \<and> (\<not> contenteditable (element st) \<longrightarrow> isNativeField (element st) \<longrightarrow>
          getCurrentText st
            = wordAtEnd (dropTrailingWs (take (selectionStart (element st))
                                               (elem_value (element st))))
          \<and> (selectionStart (element st) = 0 \<longrightarrow> getCurrentText st = []))
   \<and> (\<not> contenteditable (element st) \<longrightarrow> \<not> isNativeField (element st) \<longrightarrow>
          getCurrentText st = [])
   \<and> (\<forall>t. t \<noteq> [] \<longrightarrow> \<not> isWhiteSpace (last t) \<longrightarrow>
          wordAtEnd (dropTrailingWs t) = wordAtEnd t)"
proof -
  have empty: "wordAtEnd (dropTrailingWs []) = []"
    by (simp add: wordAtEnd_def dropTrailingWs_def)
  have run: "wordAtEnd (dropTrailingWs t) = wordAtEnd t"
    if "t \<noteq> []" and "\<not> isWhiteSpace (last t)" for t
    using lastWord_no_trailing [OF that] by (simp add: lastWord_eq)
  show ?thesis
    using empty run by (auto simp: getCurrentText_def Let_def lastWord_eq)
qed

theorem current_text_is_last_word_witness:
  "\<not> contenteditable (element (textareaPage ''Hi Thank ''))
   \<and> isNativeField (element (textareaPage ''Hi Thank ''))
   \<and> getCurrentText (textareaPage ''Hi Thank '')
       = wordAtEnd (dropTrailingWs (take (selectionStart (element (textareaPage ''Hi Thank '')))
                                          (elem_value (element (textareaPage ''Hi Thank '')))))
   \<and> getCurrentText (textareaPage ''Hi Thank '') = ''Thank''"
proof -
  have h1: "\<not> contenteditable (element (textareaPage ''Hi Thank ''))"
    by code_simp
  have h2: "isNativeField (element (textareaPage ''Hi Thank ''))"
    by code_simp
  have v: "getCurrentText (textareaPage ''Hi Thank '') = ''Thank''"
    by code_simp
  from current_text_is_last_word [of "textareaPage ''Hi Thank ''"] h1 h2 v
  show ?thesis by blast
qed

subsection \<open>Matching\<close>

lemma find_filter_hd:
  "find P xs = (case filter P xs of [] \<Rightarrow> None | x # _ \<Rightarrow> Some x)"
  by (induction xs) auto

lemma handleInput_resume_suggestion:
  "currentSuggestion (handleInput_resume lay responses cur st) = find (matchesPrefix cur) responses"
  by (simp add: handleInput_resume_def fetchSuggestions_def Let_def find_filter_hd
        clearSuggestion_fields showSuggestion_fields split: list.split)

lemma set_nodeAt: "set (nodeAt ns i) \<subseteq> set (concat ns)"
  by (auto simp: nodeAt_def intro: nth_mem)

lemma set_textBefore: "set (textBefore ns r) \<subseteq> set (concat ns)"
proof -
  have "set (concat (take n ns)) \<subseteq> set (concat ns)" for n
    by (auto dest: in_set_takeD)
  moreover have "set (take k (nodeAt ns i)) \<subseteq> set (concat ns)" for k i
    using set_nodeAt [of ns i] set_take_subset [of k "nodeAt ns i"] by blast
  ultimately show ?thesis
    by (cases "endContainer r") (simp_all add: textBefore_def)
qed

lemma currentText_editable_not_blank:
  assumes "contenteditable (element st)" and "getCurrentText st \<noteq> []"
  shows "trim (concat (textNodes (element st))) \<noteq> []"
proof -
  obtain r where r: "selection st = Some r"
    and cur: "getCurrentText st = lastWord (textBefore (textNodes (element st)) r)"
    using assms by (cases "selection st") (auto simp: getCurrentText_def)
  obtain c where "c \<in> set (lastWord (textBefore (textNodes (element st)) r))"
    using assms(2) cur by (cases "lastWord (textBefore (textNodes (element st)) r)") auto
  then have "c \<in> set (textBefore (textNodes (element st)) r)" and "\<not> isWhiteSpace c"
    using lastWord_subset by auto
  then have "c \<in> set (concat (textNodes (element st)))"
    using set_textBefore by blast
  with \<open>\<not> isWhiteSpace c\<close> show ?thesis
    by (auto simp: trim_Nil_iff)
qed

lemma handleInput_sync_await:
  assumes "\<not> now < suppressedUntil st" and "\<not> isComposing st" and "2 \<le> length (getCurrentText st)"
  shows "handleInput_sync now st = AwaitFetch (getCurrentText st) st"
proof -
  have ne: "getCurrentText st \<noteq> []" using assms(3) by auto
  have "contenteditable (element st) \<Longrightarrow> trim (concat (textNodes (element st))) \<noteq> []"
    using currentText_editable_not_blank ne by blast
  then show ?thesis using assms ne
    by (auto simp: handleInput_sync_def Let_def)
qed

text \<open>
  C2. The matcher is the part of the input handler that runs when the storage has
  answered. For every prefix, every stored list and every state, the active suggestion
  it leaves is the first record of the list, in the order of the list, whose content (or
  title, when the content is absent or empty) starts with the prefix, both in lower
  case; when no record does, no suggestion is active. Nothing else of a record, such as
  its length or its usage count, enters the choice. The handler hands its current text
  to the matcher as the prefix whenever that text has at least two characters and the
  manager is neither suppressed nor composing.
\<close>

theorem first_match_becomes_active:
  "currentSuggestion (handleInput_resume lay responses prefix st)
     = find (matchesPrefix prefix) responses
   \<and> (case currentSuggestion (handleInput_resume lay responses prefix st) of
        None \<Rightarrow> \<forall>r \<in> set responses.
                  \<not> startsWith (toLowerCase (orElse (content r) (orElse (title r) [])))
                                (toLowerCase prefix)
      | Some r \<Rightarrow> \<exists>i < length responses. responses ! i = r
                  \<and> startsWith (toLowerCase (orElse (content r) (orElse (title r) [])))
                               (toLowerCase prefix)
                  \<and> (\<forall>j < i. \<not> startsWith
                        (toLowerCase (orElse (content (responses ! j))
                                             (orElse (title (responses ! j)) [])))
                        (toLowerCase prefix)))
   \<and> (\<not> now < suppressedUntil st \<longrightarrow> \<not> isComposing st \<longrightarrow>
        2 \<le> length (getCurrentText st) \<longrightarrow>
          handleInput now lay responses st
            = handleInput_resume lay responses (getCurrentText st) st)"
proof -
  have first: "case find (matchesPrefix prefix) responses of
        None \<Rightarrow> \<forall>r \<in> set responses.
                  \<not> startsWith (toLowerCase (orElse (content r) (orElse (title r) [])))
                                (toLowerCase prefix)
      | Some r \<Rightarrow> \<exists>i < length responses. responses ! i = r
                  \<and> startsWith (toLowerCase (orElse (content r) (orElse (title r) [])))
                               (toLowerCase prefix)
                  \<and> (\<forall>j < i. \<not> startsWith
                        (toLowerCase (orElse (content (responses ! j))
                                             (orElse (title (responses ! j)) [])))
                        (toLowerCase prefix))"
    by (auto simp: find_None_iff find_Some_iff matchesPrefix_def suggestionText_def
          split: option.split)
  have reach: "handleInput now lay responses st
            = handleInput_resume lay responses (getCurrentText st) st"
    if "\<not> now < suppressedUntil st" and "\<not> isComposing st"
      and "2 \<le> length (getCurrentText st)"
    using handleInput_sync_await [OF that] by (simp add: handleInput_def)
  show ?thesis
    using first reach by (simp add: handleInput_resume_suggestion)
qed

theorem first_match_becomes_active_witness:
  "\<not> 1000 < suppressedUntil (textareaPage ''Hi'')
   \<and> \<not> isComposing (textareaPage ''Hi'')
   \<and> 2 \<le> length (getCurrentText (textareaPage ''Hi''))
   \<and> getCurrentText (textareaPage ''Hi'') = ''Hi''
   \<and> currentSuggestion
         (handleInput 1000 narrowLayout [thanksRecord, hiLong, hiShort] (textareaPage ''Hi''))
       = Some hiLong"
proof -
  let ?st = "textareaPage ''Hi''"
  let ?rs = "[thanksRecord, hiLong, hiShort]"
  have h1: "\<not> 1000 < suppressedUntil ?st"
    by code_simp
  have h2: "\<not> isComposing ?st"
    by code_simp
  have h3: "2 \<le> length (getCurrentText ?st)"
    by code_simp
  have c: "getCurrentText ?st = ''Hi''"
    by code_simp
  have f: "find (matchesPrefix (getCurrentText ?st)) ?rs = Some hiLong"
    by code_simp
  note inst = first_match_becomes_active [of narrowLayout ?rs "getCurrentText ?st" ?st 1000]
  have reach: "handleInput 1000 narrowLayout ?rs ?st
                 = handleInput_resume narrowLayout ?rs (getCurrentText ?st) ?st"
    using inst h1 h2 h3 by blast
  have "currentSuggestion (handleInput_resume narrowLayout ?rs (getCurrentText ?st) ?st)
          = find (matchesPrefix (getCurrentText ?st)) ?rs"
    using inst by (rule conjunct1)
  then have "currentSuggestion (handleInput 1000 narrowLayout ?rs ?st) = Some hiLong"
    by (simp only: reach f)
  with h1 h2 h3 c show ?thesis by blast
qed

subsection \<open>Texts shorter than two characters\<close>

text \<open>
  C5, as the claim states it, fails: an input event that arrives during a composition
  returns before the current text is looked at. After a suggestion for \<open>Thank\<close> is
  shown, a composition starts and the text shrinks to \<open>T\<close>, the current text has one
  character and the suggestion is still active after the input event.
\<close>

theorem short_text_while_composing_counterexample:
  "length (getCurrentText composingState) < 2
   \<and> isComposing composingState
   \<and> currentSuggestion (handleInput 2000 narrowLayout [thanksRecord] composingState)
       = Some thanksRecord"
  by code_simp

text \<open>
  C5, amended. For every input event that arrives while no composition is in progress,
  and whatever the storage holds: when the current text is empty or shorter than two
  characters, the handler is \<open>clearSuggestion\<close>, so that afterwards no suggestion is
  active and the overlay handle is empty.
\<close>

theorem short_text_clears_suggestion:
  assumes "\<not> isComposing st" and "length (getCurrentText st) < 2"
  shows "handleInput now lay responses st = clearSuggestion st
       \<and> currentSuggestion (handleInput now lay responses st) = None
       \<and> ghostElement (handleInput now lay responses st) = None"
  using assms by (simp add: handleInput_def handleInput_sync_def Let_def clearSuggestion_fields)

theorem short_text_clears_suggestion_witness:
  "\<not> isComposing (shownState\<lparr>selection := caretAt 0 1\<rparr>)
   \<and> length (getCurrentText (shownState\<lparr>selection := caretAt 0 1\<rparr>)) < 2
   \<and> currentSuggestion
        (handleInput 1000 narrowLayout [thanksRecord] (shownState\<lparr>selection := caretAt 0 1\<rparr>))
       = None
   \<and> body (handleInput 1000 narrowLayout [thanksRecord] (shownState\<lparr>selection := caretAt 0 1\<rparr>))
       = []"
proof -
  have h1: "\<not> isComposing (shownState\<lparr>selection := caretAt 0 1\<rparr>)"
    by (simp add: shownState_def)
  have h2: "length (getCurrentText (shownState\<lparr>selection := caretAt 0 1\<rparr>)) < 2"
    by code_simp
  have b: "body (clearSuggestion (shownState\<lparr>selection := caretAt 0 1\<rparr>)) = []"
    by (simp add: clearSuggestion_body shownState_def)
  have r: "handleInput 1000 narrowLayout [thanksRecord] (shownState\<lparr>selection := caretAt 0 1\<rparr>)
             = clearSuggestion (shownState\<lparr>selection := caretAt 0 1\<rparr>)
       \<and> currentSuggestion
            (handleInput 1000 narrowLayout [thanksRecord] (shownState\<lparr>selection := caretAt 0 1\<rparr>))
           = None
       \<and> ghostElement
            (handleInput 1000 narrowLayout [thanksRecord] (shownState\<lparr>selection := caretAt 0 1\<rparr>))
           = None"
    using h1 h2 by (rule short_text_clears_suggestion)
  then have e: "handleInput 1000 narrowLayout [thanksRecord] (shownState\<lparr>selection := caretAt 0 1\<rparr>)
             = clearSuggestion (shownState\<lparr>selection := caretAt 0 1\<rparr>)"
    by (rule conjunct1)
  have b2: "body (handleInput 1000 narrowLayout [thanksRecord] (shownState\<lparr>selection := caretAt 0 1\<rparr>))
            = []"
    by (simp only: e b)
  from r h1 h2 b2 show ?thesis by blast
qed

subsection \<open>Dismissing with Escape\<close>

text \<open>
  C6. When a suggestion is active, the keydown handler for the Escape key clears the
  suggestion and the overlay handle, the overlay node the handle referred to is no longer
  in the document, and the element (its value, its text nodes) and the selection are
  exactly what they were before the key was pressed.
\<close>

theorem escape_dismisses_without_edit:
  assumes "currentSuggestion st \<noteq> None"
  shows "currentSuggestion (handleKeydown now tDispatch ''Escape'' st) = None
       \<and> ghostElement (handleKeydown now tDispatch ''Escape'' st) = None
       \<and> (\<forall>ov \<in> set (body (handleKeydown now tDispatch ''Escape'' st)).
             ghostElement st \<noteq> Some (ov_id ov))
       \<and> element (handleKeydown now tDispatch ''Escape'' st) = element st
       \<and> selection (handleKeydown now tDispatch ''Escape'' st) = selection st"
  using assms
  by (auto simp: handleKeydown_def clearSuggestion_fields clearSuggestion_body
           split: option.splits)

theorem escape_dismisses_witness:
  "currentSuggestion shownState \<noteq> None
   \<and> currentSuggestion (handleKeydown 7 7 ''Escape'' shownState) = None
   \<and> ghostElement (handleKeydown 7 7 ''Escape'' shownState) = None
   \<and> body (handleKeydown 7 7 ''Escape'' shownState) = []
   \<and> concat (textNodes (element (handleKeydown 7 7 ''Escape'' shownState))) = ''Thank''"
proof -
  have h: "currentSuggestion shownState \<noteq> None"
    by (simp add: shownState_def)
  have b: "body (handleKeydown 7 7 ''Escape'' shownState) = []"
    by (simp add: handleKeydown_def clearSuggestion_body shownState_def)
  have e: "concat (textNodes (element shownState)) = ''Thank''"
    by (simp add: shownState_def editableWith_def)
  from escape_dismisses_without_edit [OF h, of 7 7] h b e show ?thesis
    by simp
qed

subsection \<open>The suppression window\<close>

lemma handleInput_sync_suppressed:
  "now < suppressedUntil st \<Longrightarrow> handleInput_sync now st = Finished (clearSuggestion st)"
  by (simp add: handleInput_sync_def)

lemma dispatchInput_suppressed:
  "t < suppressedUntil st \<Longrightarrow> dispatchInput t st = clearSuggestion st"
  by (simp add: dispatchInput_def handleInput_sync_def)

lemma replaceInInput_suppressed:
  "t < suppressedUntil st \<Longrightarrow>
     suppressedUntil (replaceInInput t fullText st) = suppressedUntil st
   \<and> pendingLookups (replaceInInput t fullText st) = pendingLookups st"
  by (simp add: replaceInInput_def Let_def dispatchInput_suppressed clearSuggestion_fields)

lemma replaceInContentEditable_suppressed:
  "t < suppressedUntil st \<Longrightarrow>
     suppressedUntil (replaceInContentEditable t fullText st) = suppressedUntil st
   \<and> pendingLookups (replaceInContentEditable t fullText st) = pendingLookups st"
  by (simp add: replaceInContentEditable_def Let_def dispatchInput_suppressed clearSuggestion_fields
           split: option.split prod.split)

text \<open>
  C4. A commit sets the deadline 500 ms after its reading of the clock. The \<open>input\<close>
  event it dispatches reaches the listener before the deadline, so the listener starts no
  lookup and the commit ends with no active suggestion and no overlay handle. In every
  later state that still has this deadline, an input event whose reading of the clock is
  before the deadline, whatever the storage holds, leaves no suggestion active, leaves no
  overlay handle and starts no lookup.
\<close>

theorem commit_suppresses_input:
  assumes "currentSuggestion st \<noteq> None" and "tDispatch < now + 500"
  shows "suppressedUntil (acceptSuggestion now tDispatch st) = now + 500
       \<and> pendingLookups (acceptSuggestion now tDispatch st) = pendingLookups st
       \<and> currentSuggestion (acceptSuggestion now tDispatch st) = None
       \<and> ghostElement (acceptSuggestion now tDispatch st) = None
       \<and> (\<forall>later t lay responses.
             suppressedUntil later = suppressedUntil (acceptSuggestion now tDispatch st) \<longrightarrow>
             t < now + 500 \<longrightarrow>
               currentSuggestion (handleInput t lay responses later) = None
             \<and> ghostElement (handleInput t lay responses later) = None
             \<and> currentSuggestion (dispatchInput t later) = None
             \<and> pendingLookups (dispatchInput t later) = pendingLookups later)"
proof -
  obtain s where s: "currentSuggestion st = Some s" using assms(1) by auto
  define st1 where "st1 = st\<lparr>suppressedUntil := now + 500\<rparr>"
  define st2 where "st2 = (if contenteditable (element st1)
                      then replaceInContentEditable tDispatch (suggestionText s) st1
                      else if isNativeField (element st1)
                      then replaceInInput tDispatch (suggestionText s) st1
                      else st1)"
  have acc: "acceptSuggestion now tDispatch st = clearSuggestion st2"
    by (simp add: acceptSuggestion_def s st2_def st1_def Let_def)
  have sup1: "tDispatch < suppressedUntil st1" using assms(2) by (simp add: st1_def)
  have st2_fields: "suppressedUntil st2 = now + 500 \<and> pendingLookups st2 = pendingLookups st"
    using replaceInInput_suppressed [OF sup1] replaceInContentEditable_suppressed [OF sup1]
    by (simp add: st2_def) (simp add: st1_def)
  have a: "suppressedUntil (clearSuggestion st2) = now + 500"
    and b: "pendingLookups (clearSuggestion st2) = pendingLookups st"
    using st2_fields by (simp_all add: clearSuggestion_fields)
  have later: "currentSuggestion (handleInput t lay responses later) = None
           \<and> ghostElement (handleInput t lay responses later) = None
           \<and> currentSuggestion (dispatchInput t later) = None
           \<and> pendingLookups (dispatchInput t later) = pendingLookups later"
    if "suppressedUntil later = now + 500" and "t < now + 500" for later t lay responses
  proof -
    have "t < suppressedUntil later" using that by simp
    then show ?thesis
      by (simp add: handleInput_def handleInput_sync_suppressed dispatchInput_suppressed
            clearSuggestion_fields)
  qed
  show ?thesis unfolding acc using a b later by (simp add: clearSuggestion_fields)
qed

theorem commit_suppresses_input_witness:
  "currentSuggestion shownState \<noteq> None \<and> (1001 :: int) < 1000 + 500
   \<and> suppressedUntil (acceptSuggestion 1000 1001 shownState) = 1500
   \<and> pendingLookups (acceptSuggestion 1000 1001 shownState) = []
   \<and> currentSuggestion
        (handleInput 1499 narrowLayout [thanksRecord] (acceptSuggestion 1000 1001 shownState))
       = None
   \<and> concat (textNodes (element (acceptSuggestion 1000 1001 shownState)))
       = ''Thank you for connecting!''"
proof -
  have h1: "currentSuggestion shownState \<noteq> None"
    by (simp add: shownState_def)
  have h2: "(1001 :: int) < 1000 + 500"
    by simp
  have p: "pendingLookups shownState = []"
    by (simp add: shownState_def)
  have c: "concat (textNodes (element (acceptSuggestion 1000 1001 shownState)))
       = ''Thank you for connecting!''"
    by code_simp
  from commit_suppresses_input [OF h1 h2] h1 p c show ?thesis
    by simp
qed

subsection \<open>At most one overlay\<close>

lemma singleOverlay_clearGhostElement_body:
  "singleOverlay st \<Longrightarrow> body (clearGhostElement st) = []"
  by (auto simp: singleOverlay_def clearGhostElement_body split: option.splits)

lemma singleOverlay_empty: "body st = [] \<Longrightarrow> singleOverlay st"
  by (simp add: singleOverlay_def)

lemma singleOverlay_clearGhostElement: "singleOverlay st \<Longrightarrow> singleOverlay (clearGhostElement st)"
  by (simp add: singleOverlay_empty singleOverlay_clearGhostElement_body)

lemma singleOverlay_clearSuggestion: "singleOverlay st \<Longrightarrow> singleOverlay (clearSuggestion st)"
proof -
  assume a: "singleOverlay st"
  have "singleOverlay (st\<lparr>currentSuggestion := None\<rparr>)"
    using a by (simp add: singleOverlay_def)
  then show ?thesis
    unfolding clearSuggestion_def by (rule singleOverlay_clearGhostElement)
qed

lemma positionLinkedInOverlay_body:
  "body st = [] \<Longrightarrow>
   \<exists>ov2. body (positionLinkedInOverlay lay ov st) = [ov2] \<and> ov_id ov2 = ov_id ov"
  by (simp add: positionLinkedInOverlay_def Let_def appendChild_def)

lemma positionTwitterOverlay_body:
  "body st = [] \<Longrightarrow>
   body (positionTwitterOverlay lay ov st) = []
   \<or> (\<exists>ov2. body (positionTwitterOverlay lay ov st) = [ov2] \<and> ov_id ov2 = ov_id ov)"
  by (simp add: positionTwitterOverlay_def Let_def appendChild_def removeNode_def
        split: option.split)

lemma singleOverlay_createGhostElement:
  assumes "singleOverlay st"
  shows "singleOverlay (createGhostElement lay text fullText pf st)"
proof (cases "contenteditable (element st)")
  case False
  then show ?thesis
    using assms
    by (simp add: createGhostElement_def Let_def clearGhostElement_fields
          singleOverlay_clearGhostElement)
next
  case True
  define st2 where "st2 = (clearGhostElement st)\<lparr>nextNode := Suc (nextNode (clearGhostElement st))\<rparr>"
  have b2: "body st2 = []"
    using assms by (simp add: st2_def singleOverlay_clearGhostElement_body)
  show ?thesis
  proof (cases pf)
    case LinkedIn
    obtain ov2 where "body (positionLinkedInOverlay lay
        \<lparr>ov_id = nextNode (clearGhostElement st), ov_textContent = fullText,
         ov_left = None, ov_top = None, ov_width = None, ov_maxWidth = CalcFullMinus40\<rparr> st2) = [ov2]"
      and "ov_id ov2 = nextNode (clearGhostElement st)"
      using positionLinkedInOverlay_body [OF b2] by fastforce
    then show ?thesis using True LinkedIn
      by (simp add: createGhostElement_def Let_def clearGhostElement_fields st2_def
            singleOverlay_def)
  next
    case Twitter
    have "body (positionTwitterOverlay lay
        \<lparr>ov_id = nextNode (clearGhostElement st), ov_textContent = text,
         ov_left = None, ov_top = None, ov_width = None, ov_maxWidth = Px 300\<rparr> st2) = []
      \<or> (\<exists>ov2. body (positionTwitterOverlay lay
        \<lparr>ov_id = nextNode (clearGhostElement st), ov_textContent = text,
         ov_left = None, ov_top = None, ov_width = None, ov_maxWidth = Px 300\<rparr> st2) = [ov2]
          \<and> ov_id ov2 = nextNode (clearGhostElement st))"
      using positionTwitterOverlay_body [OF b2] by fastforce
    then show ?thesis using True Twitter
      by (auto simp: createGhostElement_def Let_def clearGhostElement_fields st2_def
            singleOverlay_def)
  qed
qed

lemma singleOverlay_showSuggestion:
  assumes "singleOverlay st"
  shows "singleOverlay (showSuggestion lay r cur st)"
proof -
  have "singleOverlay (st\<lparr>currentSuggestion := Some r\<rparr>)"
    using assms by (simp add: singleOverlay_def)
  then show ?thesis
    by (simp add: showSuggestion_def Let_def singleOverlay_createGhostElement)
qed

lemma singleOverlay_handleInput_resume:
  "singleOverlay st \<Longrightarrow> singleOverlay (handleInput_resume lay responses cur st)"
  by (simp add: handleInput_resume_def Let_def singleOverlay_clearSuggestion
        singleOverlay_showSuggestion split: list.split)

lemma singleOverlay_storageResult:
  assumes "singleOverlay st"
  shows "singleOverlay (storageResult lay responses st)"
proof (cases "pendingLookups st")
  case Nil
  then show ?thesis using assms by (simp add: storageResult_def)
next
  case (Cons cur rest)
  have "singleOverlay (st\<lparr>pendingLookups := rest\<rparr>)"
    using assms by (simp add: singleOverlay_def)
  then show ?thesis using Cons
    by (simp add: storageResult_def singleOverlay_handleInput_resume)
qed

lemma singleOverlay_dispatchInput:
  assumes "singleOverlay st"
  shows "singleOverlay (dispatchInput now st)"
proof -
  have "singleOverlay (st\<lparr>pendingLookups := p\<rparr>)" for p
    using assms by (simp add: singleOverlay_def)
  then show ?thesis using assms
    by (simp add: dispatchInput_def handleInput_sync_def Let_def singleOverlay_clearSuggestion)
qed

lemma singleOverlay_replaceInInput:
  assumes "singleOverlay st"
  shows "singleOverlay (replaceInInput t fullText st)"
proof -
  have "singleOverlay (st\<lparr>element := e\<rparr>)" for e
    using assms by (simp add: singleOverlay_def)
  then show ?thesis
    by (simp add: replaceInInput_def Let_def singleOverlay_dispatchInput)
qed

lemma singleOverlay_replaceInContentEditable:
  assumes "singleOverlay st"
  shows "singleOverlay (replaceInContentEditable t fullText st)"
proof -
  have "singleOverlay (st\<lparr>element := e, selection := s\<rparr>)" for e s
    using assms by (simp add: singleOverlay_def)
  then show ?thesis using assms
    by (simp add: replaceInContentEditable_def Let_def singleOverlay_dispatchInput
          split: option.split prod.split)
qed

lemma singleOverlay_acceptSuggestion:
  assumes "singleOverlay st"
  shows "singleOverlay (acceptSuggestion now t st)"
proof -
  have "singleOverlay (st\<lparr>suppressedUntil := u\<rparr>)" for u
    using assms by (simp add: singleOverlay_def)
  then show ?thesis using assms
    by (simp add: acceptSuggestion_def Let_def singleOverlay_clearSuggestion
          singleOverlay_replaceInInput singleOverlay_replaceInContentEditable
          split: option.split)
qed

lemma singleOverlay_step:
  assumes "singleOverlay st"
  shows "singleOverlay (step ev st)"
proof (cases ev)
  case (Edit v pos ns sel)
  then show ?thesis using assms by (simp add: singleOverlay_def)
next
  case CompositionStart
  then show ?thesis using assms by (simp add: singleOverlay_def)
next
  case CompositionEnd
  then show ?thesis using assms by (simp add: singleOverlay_def)
qed (use assms in \<open>simp_all add: singleOverlay_dispatchInput singleOverlay_storageResult
      handleKeydown_def singleOverlay_acceptSuggestion singleOverlay_clearSuggestion
      backspaceTimeout_def Let_def\<close>)

lemma singleOverlay_run: "singleOverlay st \<Longrightarrow> singleOverlay (run evs st)"
  by (induction evs arbitrary: st) (simp_all add: singleOverlay_step)

lemma singleOverlay_length: "singleOverlay st \<Longrightarrow> length (body st) \<le> 1"
  by (auto simp: singleOverlay_def)

text \<open>
  C9. After every sequence of input events, answers of the storage, keydown events,
  timer callbacks, blur and composition events and edits of the text, starting from the
  state the constructor leaves, the document holds at most one overlay node of the
  manager, the handle of the manager refers to it, and \<open>clearGhostElement\<close>, with which
  \<open>createGhostElement\<close> begins, leaves the document without any.
\<close>

theorem at_most_one_overlay:
  "length (body (run evs (newManager el sel host))) \<le> 1
   \<and> singleOverlay (run evs (newManager el sel host))
   \<and> body (clearGhostElement (run evs (newManager el sel host))) = []"
proof -
  have "singleOverlay (newManager el sel host)"
    by (simp add: singleOverlay_def newManager_def)
  then have "singleOverlay (run evs (newManager el sel host))"
    by (rule singleOverlay_run)
  then show ?thesis
    using singleOverlay_length singleOverlay_clearGhostElement_body by blast
qed

theorem at_most_one_overlay_witness:
  "length (body (run typingEvents (editablePage ''www.linkedin.com'' ''Tha''))) \<le> 1
   \<and> map ov_id (body (run typingEvents (editablePage ''www.linkedin.com'' ''Tha''))) = [1]
   \<and> ghostElement (run typingEvents (editablePage ''www.linkedin.com'' ''Tha'')) = Some 1"
proof -
  have v: "map ov_id (body (run typingEvents (editablePage ''www.linkedin.com'' ''Tha''))) = [1]
      \<and> ghostElement (run typingEvents (editablePage ''www.linkedin.com'' ''Tha'')) = Some 1"
    by code_simp
  have "length (body (run typingEvents
          (newManager (editableWith [''Tha'']) (caretAt 0 (length ''Tha'')) ''www.linkedin.com'')))
        \<le> 1"
    using at_most_one_overlay
      [of typingEvents "editableWith [''Tha'']" "caretAt 0 (length ''Tha'')" "''www.linkedin.com''"]
    by (rule conjunct1)
  then have "length (body (run typingEvents (editablePage ''www.linkedin.com'' ''Tha''))) \<le> 1"
    by (simp only: editablePage_def)
  with v show ?thesis by blast
qed

subsection \<open>Inputs and textareas\<close>
















text \<open>
  With the two lines of that record the caret, set behind the length of the assigned
  string, is at the end of the value in both elements.
\<close>

lemma caret_after_commit_of_two_lines:
  "selectionStart (element (handleKeydown 2000 2001 ''Tab''
      (handleInput 1000 narrowLayout [twoLineRecord] (inputPage ''Ki'')))) = 16
   \<and> selectionStart (element (handleKeydown 2000 2001 ''Tab''
      (handleInput 1000 narrowLayout [twoLineRecord] (textareaPage ''Ki'')))) = 17"
  by code_simp

subsection \<open>What a commit leaves in the element\<close>

text \<open>
  In an input or textarea the commit keeps the value up to the last space or line feed
  before the caret. Where the text before the caret has no other white space, that is
  the text before the run of other characters that ends at the caret, and the element
  stores the content the specification requires.
\<close>

lemma wordStart_takeWhile:
  "p \<le> length v \<Longrightarrow>
   wordStart v p = p - length (takeWhile (\<lambda>c. c \<noteq> CHR '' '' \<and> c \<noteq> CHR 0x0A) (rev (take p v)))"
proof (induction p)
  case 0
  then show ?case by simp
next
  case (Suc p)
  then have p: "p < length v" by simp
  have t: "rev (take (Suc p) v) = v ! p # rev (take p v)"
    using p by (simp add: take_Suc_conv_app_nth)
  show ?case
    using Suc p by (simp add: t)
qed

lemma takeWhile_delims:
  assumes "\<forall>c \<in> set xs. isWhiteSpace c \<longrightarrow> c = CHR '' '' \<or> c = CHR 0x0A"
  shows "takeWhile (\<lambda>c. c \<noteq> CHR '' '' \<and> c \<noteq> CHR 0x0A) xs = takeWhile (\<lambda>c. \<not> isWhiteSpace c) xs"
proof (rule takeWhile_cong [OF refl])
  fix x assume "x \<in> set xs"
  then show "(x \<noteq> CHR '' '' \<and> x \<noteq> CHR 0x0A) = (\<not> isWhiteSpace x)"
    using assms by (auto simp: isWhiteSpace_def)
qed

lemma commit_native_matches_spec:
  assumes "currentSuggestion st = Some r" and "\<not> contenteditable (element st)"
    and "isNativeField (element st)"
    and "selectionStart (element st) \<le> length (elem_value (element st))"
    and "\<forall>c \<in> set (take (selectionStart (element st)) (elem_value (element st))).
           isWhiteSpace c \<longrightarrow> c = CHR '' '' \<or> c = CHR 0x0A"
  shows "elem_value (element (acceptSuggestion now t st))
           = storedValue (element st)
               (spec_commit (elem_value (element st)) (selectionStart (element st))
                  (suggestionText r))"
proof -
  let ?v = "elem_value (element st)" and ?p = "selectionStart (element st)"
  have "wordStart ?v ?p = ?p - length (wordAtEnd (take ?p ?v))"
    using wordStart_takeWhile [OF assms(4)] takeWhile_delims [of "rev (take ?p ?v)"] assms(5)
    by (simp add: wordAtEnd_def)
  then show ?thesis
    using acceptSuggestion_native [OF assms(1-3)] by (simp add: spec_commit_def)
qed


text \<open>
  In an editable region the commit works on the text nodes; the lemmas below relate the
  operations on the nodes to the concatenated text.
\<close>

lemma concat_take_drop: "concat ns = concat (take i ns) @ concat (drop i ns)"
  by (metis append_take_drop_id concat_append)

lemma concat_split_at:
  "i < length ns \<Longrightarrow> concat ns = concat (take i ns) @ ns ! i @ concat (drop (Suc i) ns)"
  by (metis Cons_nth_drop_Suc concat.simps(2) concat_take_drop)

lemma concat_headPart:
  "validPoint ns s \<Longrightarrow> concat (headPart ns s) = take (absOffset ns s) (concat ns)"
proof (cases s)
  case (Pair c k)
  assume v: "validPoint ns s"
  show ?thesis
  proof (cases c)
    case (TextNode i)
    then have i: "i < length ns" and k: "k \<le> length (ns ! i)" using v Pair by simp_all
    have "take (length (concat (take i ns)) + k) (concat ns)
            = concat (take i ns) @ take k (ns ! i)"
      using k by (subst concat_split_at [OF i]) simp
    then show ?thesis using Pair TextNode i by (simp add: nodeAt_def)
  next
    case Editable
    have "take (length (concat (take k ns))) (concat ns) = concat (take k ns)"
      by (subst concat_take_drop [of ns k]) simp
    then show ?thesis using Pair Editable by simp
  qed
qed

lemma concat_tailPart:
  "validPoint ns e \<Longrightarrow> concat (tailPart ns e) = drop (absOffset ns e) (concat ns)"
proof (cases e)
  case (Pair c k)
  assume v: "validPoint ns e"
  show ?thesis
  proof (cases c)
    case (TextNode i)
    then have i: "i < length ns" and k: "k \<le> length (ns ! i)" using v Pair by simp_all
    have "drop (length (concat (take i ns)) + k) (concat ns)
            = drop k (ns ! i) @ concat (drop (Suc i) ns)"
      using k by (subst concat_split_at [OF i]) simp
    then show ?thesis using Pair TextNode i by (simp add: nodeAt_def)
  next
    case Editable
    have "drop (length (concat (take k ns))) (concat ns) = concat (drop k ns)"
      by (subst concat_take_drop [of ns k]) simp
    then show ?thesis using Pair Editable by simp
  qed
qed

text \<open>Deleting the range and inserting the new node where it collapsed, on the level of the text.\<close>

lemma insert_after_delete:
  assumes "validPoint ns s" and "validPoint ns e"
  shows "concat (fst (replaceRange ns s e new))
           = take (absOffset ns s) (concat ns) @ new @ drop (absOffset ns e) (concat ns)
       \<and> concat (take (Suc (snd (replaceRange ns s e new))) (fst (replaceRange ns s e new)))
           = take (absOffset ns s) (concat ns) @ new"
proof -
  obtain cs ks where s: "s = (cs, ks)" by (cases s)
  obtain ce ke where e: "e = (ce, ke)" by (cases e)
  show ?thesis
  proof (cases cs)
    case Editable
    then have j: "ks \<le> length ns" using assms(1) s by simp
    have len: "length (take ks ns) = ks" using j by simp
    have ins: "replaceRange ns s e new = (take ks ns @ [new] @ tailPart ns e, ks)"
      using s Editable len by (simp add: replaceRange_def min_def)
    have h: "concat (take ks ns) = take (absOffset ns s) (concat ns)"
      using concat_headPart [OF assms(1)] s Editable by simp
    have "take (Suc ks) (take ks ns @ [new] @ tailPart ns e) = take ks ns @ [new]"
      using len by simp
    then show ?thesis
      by (simp add: ins h [symmetric] concat_tailPart [OF assms(2)])
  next
    case (TextNode i)
    then have i: "i < length ns" and k: "ks \<le> length (ns ! i)" using assms(1) s by simp_all
    have len: "length (take i ns) = i" using i by simp
    have h: "concat (take i ns) @ take ks (ns ! i) = take (absOffset ns s) (concat ns)"
      using concat_headPart [OF assms(1)] s TextNode i by (simp add: nodeAt_def)
    show ?thesis
    proof (cases "ce = TextNode i")
      case True
      then have ke: "ke \<le> length (ns ! i)" using assms(2) e by simp
      define X where "X = take ks (ns ! i) @ drop ke (ns ! i)"
      have del: "deleteContents ns s e = (take i ns @ [X] @ drop (Suc i) ns, (TextNode i, ks))"
        using s e TextNode True i by (simp add: nodeAt_def X_def)
      have node: "nodeAt (take i ns @ [X] @ drop (Suc i) ns) i = X"
        using len by (simp add: nodeAt_def nth_append)
      have tk: "take i (take i ns @ [X] @ drop (Suc i) ns) = take i ns"
        using len by simp
      have dr: "drop (Suc i) (take i ns @ [X] @ drop (Suc i) ns) = drop (Suc i) ns"
        using len by simp
      have halves: "take ks X = take ks (ns ! i)" "drop ks X = drop ke (ns ! i)"
        using k by (simp_all add: X_def)
      have ins: "replaceRange ns s e new
                   = (take i ns @ [take ks (ns ! i), new, drop ke (ns ! i)] @ drop (Suc i) ns, Suc i)"
        unfolding replaceRange_def del fst_conv snd_conv insertNode.simps node tk dr halves
        by simp
      have t: "drop (absOffset ns e) (concat ns) = drop ke (ns ! i) @ concat (drop (Suc i) ns)"
        using ke e True by (subst concat_split_at [OF i]) simp
      have "take (Suc (Suc i)) (take i ns @ [take ks (ns ! i), new, drop ke (ns ! i)] @ drop (Suc i) ns)
              = take i ns @ [take ks (ns ! i), new]"
        using len by simp
      then show ?thesis
        using h t by (simp add: ins)
    next
      case False
      have del: "deleteContents ns s e
                   = (take i ns @ [take ks (ns ! i)] @ tailPart ns e, (Editable, Suc i))"
        using s e TextNode False i by (cases ce) (simp_all add: nodeAt_def)
      have len2: "length (take i ns @ [take ks (ns ! i)]) = Suc i" using len by simp
      have ins: "replaceRange ns s e new
                   = (take i ns @ [take ks (ns ! i)] @ [new] @ tailPart ns e, Suc i)"
        using len2 by (simp add: replaceRange_def del min_def)
      have "take (Suc (Suc i)) (take i ns @ [take ks (ns ! i)] @ [new] @ tailPart ns e)
              = take i ns @ [take ks (ns ! i), new]"
        using len by simp
      then show ?thesis
        using h concat_tailPart [OF assms(2)] by (simp add: ins)
    qed
  qed
qed

lemma findStartNode_Some:
  "findStartNode ns i0 c0 S = Some (i, off) \<Longrightarrow> c0 \<le> S \<Longrightarrow>
   i0 \<le> i \<and> i - i0 < length ns
   \<and> c0 + length (concat (take (i - i0) ns)) + off = S
   \<and> off \<le> length (ns ! (i - i0))"
proof (induction ns arbitrary: i0 c0)
  case Nil
  then show ?case by simp
next
  case (Cons n ns)
  show ?case
  proof (cases "S \<le> c0 + length n")
    case True
    then show ?thesis using Cons.prems by auto
  next
    case False
    then have rec: "findStartNode ns (Suc i0) (c0 + length n) S = Some (i, off)"
      and le: "c0 + length n \<le> S"
      using Cons.prems by simp_all
    from Cons.IH [OF rec le] have ih: "Suc i0 \<le> i" "i - Suc i0 < length ns"
      "c0 + length n + length (concat (take (i - Suc i0) ns)) + off = S"
      "off \<le> length (ns ! (i - Suc i0))"
      by simp_all
    have idx: "i - i0 = Suc (i - Suc i0)" using ih(1) by simp
    show ?thesis using ih by (simp add: idx)
  qed
qed

lemma findStartNode_exists:
  "ns \<noteq> [] \<Longrightarrow> S \<le> c0 + length (concat ns) \<Longrightarrow> findStartNode ns i0 c0 S \<noteq> None"
proof (induction ns arbitrary: i0 c0)
  case Nil
  then show ?case by simp
next
  case (Cons n ns)
  show ?case
  proof (cases "S \<le> c0 + length n")
    case True
    then show ?thesis by simp
  next
    case False
    then have "ns \<noteq> []" using Cons.prems(2) by auto
    moreover have "S \<le> c0 + length n + length (concat ns)" using Cons.prems(2) by simp
    ultimately show ?thesis using Cons.IH [of "c0 + length n" "Suc i0"] False by simp
  qed
qed

text \<open>The index behind the last space, as the source computes it from \<open>lastIndexOf\<close>.\<close>

lemma takeWhile_rev_shorter:
  assumes "c \<in> set tb"
  shows "length (takeWhile (\<lambda>x. x \<noteq> c) (rev tb)) < length tb"
proof -
  let ?P = "\<lambda>x. x \<noteq> c"
  have "dropWhile ?P (rev tb) \<noteq> []"
    using assms by (auto simp: dropWhile_eq_Nil_conv)
  then have "0 < length (dropWhile ?P (rev tb))" by simp
  moreover have "length (takeWhile ?P (rev tb)) + length (dropWhile ?P (rev tb)) = length tb"
    by (metis length_append length_rev takeWhile_dropWhile_id)
  ultimately show ?thesis by linarith
qed

lemma startIndex_eq:
  "(if lastIndexOf tb CHR '' '' \<ge> 0 then nat (lastIndexOf tb CHR '' '' + 1) else 0)
     = length tb - length (takeWhile (\<lambda>c. c \<noteq> CHR '' '') (rev tb))"
proof (cases "CHR '' '' \<in> set tb")
  case True
  then have "length (takeWhile (\<lambda>c. c \<noteq> CHR '' '') (rev tb)) < length tb"
    by (rule takeWhile_rev_shorter)
  then show ?thesis using True by (simp add: lastIndexOf_def)
next
  case False
  then have "takeWhile (\<lambda>c. c \<noteq> CHR '' '') (rev tb) = rev tb"
    by (auto simp: takeWhile_eq_all_conv)
  then have "length (takeWhile (\<lambda>c. c \<noteq> CHR '' '') (rev tb)) = length tb"
    by (metis length_rev)
  then show ?thesis using False by (simp add: lastIndexOf_def)
qed

lemma textBefore_take:
  "validPoint ns (endContainer r, endOffset r) \<Longrightarrow>
   textBefore ns r = take (absOffset ns (endContainer r, endOffset r)) (concat ns)"
  using concat_headPart [of ns "(endContainer r, endOffset r)"]
  by (cases "endContainer r") (simp_all add: textBefore_def)

lemma absOffset_le: "validPoint ns p \<Longrightarrow> absOffset ns p \<le> length (concat ns)"
proof (cases p)
  case (Pair c k)
  assume v: "validPoint ns p"
  show ?thesis
  proof (cases c)
    case (TextNode i)
    then have i: "i < length ns" and k: "k \<le> length (ns ! i)" using v Pair by simp_all
    show ?thesis using Pair TextNode k by (subst concat_split_at [OF i]) simp
  next
    case Editable
    show ?thesis using Pair Editable by (subst concat_take_drop [of ns k]) simp
  qed
qed

lemma prefix_length_mono:
  "i \<le> j \<Longrightarrow> length (concat (take i ns)) \<le> length (concat (take j ns))"
proof -
  assume "i \<le> j"
  then have "take i ns = take i (take j ns)" by (simp add: min_def)
  then have "concat (take j ns) = concat (take i ns) @ concat (drop i (take j ns))"
    by (metis concat_take_drop)
  then show ?thesis by simp
qed

lemma prefix_length_Suc:
  "i < length ns \<Longrightarrow> length (concat (take (Suc i) ns)) = length (concat (take i ns)) + length (ns ! i)"
  by (simp add: take_Suc_conv_app_nth)

lemma isBefore_absOffset:
  assumes "validPoint ns p" and "validPoint ns q" and "isBefore p q"
  shows "absOffset ns p \<le> absOffset ns q"
proof -
  obtain cp kp where p: "p = (cp, kp)" by (cases p)
  obtain cq kq where q: "q = (cq, kq)" by (cases q)
  show ?thesis
  proof (cases cp)
    case tp: (TextNode i)
    then have i: "i < length ns" and kp: "kp \<le> length (ns ! i)" using assms(1) p by simp_all
    have up: "absOffset ns p \<le> length (concat (take (Suc i) ns))"
      using p tp kp by (simp add: prefix_length_Suc [OF i])
    show ?thesis
    proof (cases cq)
      case (TextNode i2)
      show ?thesis
      proof (cases "i = i2")
        case True
        then show ?thesis using assms(3) p q tp TextNode by (simp add: isBefore_def)
      next
        case False
        then have "Suc i \<le> i2" using assms(3) p q tp TextNode by (auto simp: isBefore_def)
        from prefix_length_mono [OF this, of ns] up show ?thesis
          using q TextNode by simp
      qed
    next
      case Editable
      then have "Suc i \<le> kq" using assms(3) p q tp by (auto simp: isBefore_def; presburger)
      from prefix_length_mono [OF this, of ns] up show ?thesis
        using q Editable by simp
    qed
  next
    case ep: Editable
    show ?thesis
    proof (cases cq)
      case (TextNode i2)
      then have "kp \<le> i2" using assms(3) p q ep by (auto simp: isBefore_def; presburger)
      from prefix_length_mono [OF this, of ns] show ?thesis
        using p q ep TextNode by simp
    next
      case Editable
      then have "kp \<le> kq" using assms(3) p q ep by (auto simp: isBefore_def)
      from prefix_length_mono [OF this, of ns] show ?thesis
        using p q ep Editable by simp
    qed
  qed
qed


lemma replaceInContentEditable_unfold:
  assumes "selection st = Some rng"
    and "findStartNode (textNodes (element st)) 0 0
           (length (textBefore (textNodes (element st)) rng)
            - length (takeWhile (\<lambda>c. c \<noteq> CHR '' '')
                        (rev (textBefore (textNodes (element st)) rng)))) = Some (i, off)"
    and "setEnd (TextNode i, off) (endContainer rng, endOffset rng) = (s, e)"
  shows "replaceInContentEditable t full st =
           dispatchInput t
             (st\<lparr>element := (element st)
                     \<lparr>textNodes := fst (replaceRange (textNodes (element st)) s e full)\<rparr>,
                 selection := Some \<lparr>endContainer = Editable,
                    endOffset = Suc (snd (replaceRange (textNodes (element st)) s e full))\<rparr>\<rparr>)"
  using assms
  by (simp add: replaceInContentEditable_def replaceRange_def Let_def startIndex_eq
        split: prod.split)

text \<open>
  With a selection in a region that has a text node, the text after the replacement is
  the text up to the last space before the end of the selection, the inserted text, and
  the text behind the end of the selection; the new selection is collapsed behind the
  inserted text.
\<close>

theorem replaceInContentEditable_text:
  assumes sel: "selection st = Some rng"
    and valid: "validPoint (textNodes (element st)) (endContainer rng, endOffset rng)"
    and ne: "textNodes (element st) \<noteq> []"
  shows "concat (textNodes (element (replaceInContentEditable t full st)))
           = take (length (textBefore (textNodes (element st)) rng)
                   - length (takeWhile (\<lambda>c. c \<noteq> CHR '' '')
                               (rev (textBefore (textNodes (element st)) rng))))
                  (concat (textNodes (element st)))
             @ full
             @ drop (length (textBefore (textNodes (element st)) rng))
                    (concat (textNodes (element st)))
       \<and> (\<exists>caret. selection (replaceInContentEditable t full st) = Some caret
            \<and> textBefore (textNodes (element (replaceInContentEditable t full st))) caret
                = take (length (textBefore (textNodes (element st)) rng)
                        - length (takeWhile (\<lambda>c. c \<noteq> CHR '' '')
                                    (rev (textBefore (textNodes (element st)) rng))))
                       (concat (textNodes (element st)))
                  @ full)"
proof -
  define ns where "ns = textNodes (element st)"
  define p where "p = (endContainer rng, endOffset rng)"
  define tb where "tb = textBefore ns rng"
  define S where "S = length tb - length (takeWhile (\<lambda>c. c \<noteq> CHR '' '') (rev tb))"
  have vp: "validPoint ns p" using valid by (simp add: ns_def p_def)
  have tb: "tb = take (absOffset ns p) (concat ns)"
    using textBefore_take [of ns rng] vp by (simp add: tb_def p_def)
  have E: "length tb = absOffset ns p"
    using absOffset_le [OF vp] by (simp add: tb)
  have SE: "S \<le> absOffset ns p" by (simp add: S_def E)
  then have "S \<le> 0 + length (concat ns)" using absOffset_le [OF vp] by simp
  then have "findStartNode ns 0 0 S \<noteq> None"
    using ne by (intro findStartNode_exists) (simp_all add: ns_def)
  then obtain i off where f: "findStartNode ns 0 0 S = Some (i, off)" by auto
  from findStartNode_Some [OF f] have i: "i < length ns"
    and abs0: "length (concat (take i ns)) + off = S" and off: "off \<le> length (ns ! i)"
    by simp_all
  have v0: "validPoint ns (TextNode i, off)" using i off by simp
  obtain s e where se: "setEnd (TextNode i, off) p = (s, e)" by (cases "setEnd (TextNode i, off) p")
  have pts: "validPoint ns s \<and> validPoint ns e \<and> absOffset ns s = S \<and> absOffset ns e = absOffset ns p"
  proof (cases "isBefore p (TextNode i, off)")
    case True
    then have "absOffset ns p \<le> absOffset ns (TextNode i, off)"
      using isBefore_absOffset [OF vp v0] by simp
    then have "absOffset ns p = S" using SE abs0 by simp
    then show ?thesis using True se vp by (auto simp: setEnd_def)
  next
    case False
    then show ?thesis using se vp v0 abs0 by (auto simp: setEnd_def)
  qed
  let ?ins = "replaceRange ns s e full"
  have step_eq: "replaceInContentEditable t full st =
           dispatchInput t
             (st\<lparr>element := (element st)\<lparr>textNodes := fst ?ins\<rparr>,
                 selection := Some \<lparr>endContainer = Editable, endOffset = Suc (snd ?ins)\<rparr>\<rparr>)"
    using replaceInContentEditable_unfold [OF sel, of i off s e t full] f se
    by (simp add: ns_def S_def tb_def p_def)
  have whole: "concat (fst ?ins) = take S (concat ns) @ full @ drop (absOffset ns p) (concat ns)"
    and pre: "concat (take (Suc (snd ?ins)) (fst ?ins)) = take S (concat ns) @ full"
    using insert_after_delete [of ns s e full] pts by simp_all
  have "textBefore (fst ?ins) \<lparr>endContainer = Editable, endOffset = Suc (snd ?ins)\<rparr>
          = take S (concat ns) @ full"
    using pre by (simp add: textBefore_def)
  then show ?thesis
    using whole E by (simp add: step_eq dispatchInput_fields ns_def S_def tb_def)
qed


lemma takeWhile_space_only:
  assumes "\<forall>c \<in> set xs. isWhiteSpace c \<longrightarrow> c = CHR '' ''"
  shows "takeWhile (\<lambda>c. c \<noteq> CHR '' '') xs = takeWhile (\<lambda>c. \<not> isWhiteSpace c) xs"
proof (rule takeWhile_cong [OF refl])
  fix x assume "x \<in> set xs"
  then show "(x \<noteq> CHR '' '') = (\<not> isWhiteSpace x)"
    using assms by (auto simp: isWhiteSpace_def)
qed

lemma commit_editable_matches_spec:
  assumes "currentSuggestion st = Some r" and "contenteditable (element st)"
    and sel: "selection st = Some rng"
    and valid: "validPoint (textNodes (element st)) (endContainer rng, endOffset rng)"
    and ne: "textNodes (element st) \<noteq> []"
    and spaces: "\<forall>c \<in> set (textBefore (textNodes (element st)) rng).
                   isWhiteSpace c \<longrightarrow> c = CHR '' ''"
  shows "concat (textNodes (element (acceptSuggestion now t st)))
           = spec_commit (concat (textNodes (element st)))
               (length (textBefore (textNodes (element st)) rng)) (suggestionText r)"
proof -
  let ?ns = "textNodes (element st)"
  let ?tb = "textBefore ?ns rng"
  let ?st1 = "st\<lparr>suppressedUntil := now + 500\<rparr>"
  have acc: "element (acceptSuggestion now t st)
      = element (replaceInContentEditable t (suggestionText r) ?st1)"
    using assms(1,2) by (simp add: acceptSuggestion_def Let_def clearSuggestion_fields)
  have tb: "?tb = take (absOffset ?ns (endContainer rng, endOffset rng)) (concat ?ns)"
    using textBefore_take [OF valid] .
  have E: "length ?tb = absOffset ?ns (endContainer rng, endOffset rng)"
    using absOffset_le [OF valid] by (simp add: tb)
  have "take (length ?tb) (concat ?ns) = ?tb"
    using tb E by metis
  then have w: "length (wordAtEnd (take (length ?tb) (concat ?ns)))
                  = length (takeWhile (\<lambda>c. c \<noteq> CHR '' '') (rev ?tb))"
    using takeWhile_space_only [of "rev ?tb"] spaces by (simp add: wordAtEnd_def)
  have "concat (textNodes (element (replaceInContentEditable t (suggestionText r) ?st1)))
           = take (length ?tb - length (takeWhile (\<lambda>c. c \<noteq> CHR '' '') (rev ?tb))) (concat ?ns)
             @ suggestionText r @ drop (length ?tb) (concat ?ns)"
    using replaceInContentEditable_text [of ?st1 rng t "suggestionText r"] sel valid ne
    by simp
  then show ?thesis
    by (simp add: acc spec_commit_def w)
qed

text \<open>
  C1. The commit does not always leave the text before the typed word in place. The
  word that is matched is delimited by any white space, the text that is replaced
  reaches back to the last space (in an input or textarea: to the last space or line
  feed). In a textarea holding \<open>OK\<close>, a tab and \<open>Th\<close>, the current word is \<open>Th\<close>,
  the record is suggested, and the content required is \<open>OK\<close>, the tab and the
  suggestion; the Tab key leaves the suggestion alone: the text \<open>OK\<close> and the tab are
  gone. The same happens in an editable region whose text node holds \<open>OK\<close>, a line
  feed and \<open>Th\<close>. In a textarea holding \<open>Thank\<close> and a space, the current word is
  \<open>Thank\<close>, and the Tab key inserts the suggestion after the space, so that the word
  stands twice.
\<close>

theorem commit_replaces_more_than_the_word:
  "getCurrentText (textareaPage tabSeparated) = ''Th''
   \<and> wordAtEnd tabSeparated = ''Th''
   \<and> currentSuggestion (handleInput 1000 narrowLayout [thanksRecord] (textareaPage tabSeparated))
       = Some thanksRecord
   \<and> spec_commit tabSeparated 5 ''Thank you for connecting!''
       = [CHR ''O'', CHR ''K'', CHR 0x09] @ ''Thank you for connecting!''
   \<and> elem_value (element (handleKeydown 2000 2001 ''Tab''
        (handleInput 1000 narrowLayout [thanksRecord] (textareaPage tabSeparated))))
       = ''Thank you for connecting!''
   \<and> getCurrentText (editablePage ''www.linkedin.com'' lineSeparated) = ''Th''
   \<and> spec_commit lineSeparated 5 ''Thank you for connecting!''
       = [CHR ''O'', CHR ''K'', CHR 0x0A] @ ''Thank you for connecting!''
   \<and> concat (textNodes (element (handleKeydown 2000 2001 ''Tab''
        (handleInput 1000 narrowLayout [thanksRecord]
           (editablePage ''www.linkedin.com'' lineSeparated)))))
       = ''Thank you for connecting!''
   \<and> getCurrentText (textareaPage ''Thank '') = ''Thank''
   \<and> currentSuggestion (handleInput 1000 narrowLayout [thanksRecord] (textareaPage ''Thank ''))
       = Some thanksRecord
   \<and> elem_value (element (handleKeydown 2000 2001 ''Tab''
        (handleInput 1000 narrowLayout [thanksRecord] (textareaPage ''Thank ''))))
       = ''Thank Thank you for connecting!''"
  by code_simp

text \<open>
  C3, as the claim states it, fails: with \<open>Thank yo\<close> in the element and the caret at
  the end, the current text is the last word, \<open>yo\<close>, which the content of the record
  does not start with. No suggestion becomes active, the Tab key is not handled, and
  the element keeps its text. This holds for a textarea and for an editable region.
\<close>

theorem thank_yo_counterexample:
  "getCurrentText (textareaPage ''Thank yo'') = ''yo''
   \<and> currentSuggestion (handleInput 1000 narrowLayout [thanksRecord] (textareaPage ''Thank yo''))
       = None
   \<and> handleKeydown 2000 2001 ''Tab''
        (handleInput 1000 narrowLayout [thanksRecord] (textareaPage ''Thank yo''))
       = textareaPage ''Thank yo''
   \<and> getCurrentText (editablePage ''www.linkedin.com'' ''Thank yo'') = ''yo''
   \<and> currentSuggestion
        (handleInput 1000 narrowLayout [thanksRecord] (editablePage ''www.linkedin.com'' ''Thank yo''))
       = None
   \<and> handleKeydown 2000 2001 ''Tab''
        (handleInput 1000 narrowLayout [thanksRecord] (editablePage ''www.linkedin.com'' ''Thank yo''))
       = editablePage ''www.linkedin.com'' ''Thank yo''"
  by code_simp

text \<open>
  C3, amended. With \<open>Thank\<close> in the element, the caret at the end and the record in
  the storage, the record becomes the active suggestion, and the Tab key leaves exactly
  the content of the record in the element, with the caret at its end: in a textarea the
  caret offset is the length of the value; in an editable region the selection is
  collapsed behind the inserted text node, which is followed by an empty text node only.
  With \<open>Thank yo\<close> the current text is \<open>yo\<close> and no suggestion becomes active.
\<close>

theorem thank_scenario:
  "currentSuggestion (handleInput 1000 narrowLayout [thanksRecord] (textareaPage ''Thank''))
     = Some thanksRecord
   \<and> elem_value (element (handleKeydown 2000 2001 ''Tab''
        (handleInput 1000 narrowLayout [thanksRecord] (textareaPage ''Thank''))))
       = ''Thank you for connecting!''
   \<and> selectionStart (element (handleKeydown 2000 2001 ''Tab''
        (handleInput 1000 narrowLayout [thanksRecord] (textareaPage ''Thank''))))
       = length ''Thank you for connecting!''
   \<and> currentSuggestion
        (handleInput 1000 narrowLayout [thanksRecord] (editablePage ''www.linkedin.com'' ''Thank''))
       = Some thanksRecord
   \<and> textNodes (element (handleKeydown 2000 2001 ''Tab''
        (handleInput 1000 narrowLayout [thanksRecord] (editablePage ''www.linkedin.com'' ''Thank''))))
       = ['''', ''Thank you for connecting!'', '''']
   \<and> selection (handleKeydown 2000 2001 ''Tab''
        (handleInput 1000 narrowLayout [thanksRecord] (editablePage ''www.linkedin.com'' ''Thank'')))
       = Some \<lparr>endContainer = Editable, endOffset = 2\<rparr>
   \<and> getCurrentText (textareaPage ''Thank yo'') = ''yo''
   \<and> currentSuggestion (handleInput 1000 narrowLayout [thanksRecord] (textareaPage ''Thank yo''))
       = None"
  by code_simp

theorem thank_scenario_witness:
  "elem_value (element (handleKeydown 2000 2001 ''Tab''
        (handleInput 1000 narrowLayout [thanksRecord] (textareaPage ''Thank''))))
     = ''Thank you for connecting!''"
  using thank_scenario by (rule conjunct1 [OF conjunct2])

subsection \<open>The overlay next to the caret\<close>

text \<open>
  The guard of \<open>positionTwitterOverlay\<close> as it is written: when the measured width
  passes the right edge and at most 50 pixels are available, nothing is appended.
\<close>

lemma positionTwitterOverlay_guard:
  assumes "selection st \<noteq> None"
    and "rect_right (caretRect lay) + 1 + offsetWidth st lay ov > rect_right (containerRect lay) - 5"
    and "rect_right (containerRect lay) - (rect_right (caretRect lay) + 1) - 10 \<le> 50"
  shows "body (positionTwitterOverlay lay ov st) = filter (\<lambda>x. ov_id x \<noteq> ov_id ov) (body st)"
  using assms
  by (auto simp: positionTwitterOverlay_def Let_def removeNode_def split: option.split)

text \<open>
  The width is measured before the node is in the document, where it is \<open>0\<close>: a node
  that is not in the document is appended whenever the caret ends at least six pixels
  before the right edge, whatever the width of its text.
\<close>

lemma positionTwitterOverlay_detached:
  assumes "selection st \<noteq> None" and "ov_id ov \<notin> set (map ov_id (body st))"
    and "rect_right (caretRect lay) + 1 \<le> rect_right (containerRect lay) - 5"
  shows "map ov_id (body (positionTwitterOverlay lay ov st)) = map ov_id (body st) @ [ov_id ov]"
proof -
  have "\<forall>x \<in> set (body st). ov_id x \<noteq> ov_id ov"
    using assms(2) by (metis image_eqI set_map)
  then have "filter (\<lambda>x. ov_id x \<noteq> ov_id ov) (body st) = body st"
    by (simp add: filter_id_conv)
  then show ?thesis
    using assms
    by (auto simp: positionTwitterOverlay_def Let_def appendChild_def offsetWidth_def
          split: option.split)
qed

text \<open>
  C7. On a Twitter page the caret rectangle ends at 269 pixels and the editable at 300.
  The remainder of the suggestion is 200 pixels wide once laid out, wider than the 30
  pixels before the right edge, and the available width computed by the function is 20
  pixels, less than the 50 it requires. The overlay is appended all the same, at 270
  pixels with a maximal width of 300 pixels, and the handle refers to it.
\<close>

theorem overlay_appended_without_room:
  "rect_right (containerRect narrowLayout) - (rect_right (caretRect narrowLayout) + 1)
     < renderedWidth narrowLayout
   \<and> rect_right (containerRect narrowLayout) - (rect_right (caretRect narrowLayout) + 1) - 10 < 50
   \<and> includesStr (hostname (editablePage ''x.com'' ''Thank'')) ''x.com''
   \<and> body (handleInput 1000 narrowLayout [thanksRecord] (editablePage ''x.com'' ''Thank''))
       = [\<lparr>ov_id = 0, ov_textContent = '' you for connecting!'', ov_left = Some 270,
           ov_top = Some (41 / 4), ov_width = None, ov_maxWidth = Px 300\<rparr>]
   \<and> ghostElement (handleInput 1000 narrowLayout [thanksRecord] (editablePage ''x.com'' ''Thank''))
       = Some 0"
  by code_simp

end
